theory Spec2Isabelle
  imports Complex_Main
begin

section \<open>Errors and results\<close>

text \<open>
  Every \<^verbatim>\<open>assert\<close>, every out-of-range index and every shape mismatch of the Python
  source is a branch of the model that returns an error value.
\<close>

datatype error =
    AssertionError string
  | AttributeError
  | TypeError
  | IndexError
  | KeyError
  | RuntimeError

definition and_then :: "error + 'a \<Rightarrow> ('a \<Rightarrow> error + 'b) \<Rightarrow> error + 'b" where
  "and_then m f = (case m of Inl e \<Rightarrow> Inl e | Inr x \<Rightarrow> f x)"

fun collect :: "(error + 'a) list \<Rightarrow> error + 'a list" where
  "collect [] = Inr []"
| "collect (m # ms) = and_then m (\<lambda>x. and_then (collect ms) (\<lambda>xs. Inr (x # xs)))"

section \<open>Tensors\<close>

text \<open>
  An input tensor with two leading dimensions (batch, sequence) is its shape together with
  its indexing function; the shape is known even when the batch is empty, as
  \<^verbatim>\<open>tensor.shape\<close> is. The last dimensions (an embedding vector, a raster frame, a point)
  are the element. The embedding sequence that the encoder assembles and the generation
  loop mutates is the list of its rows, each row the list of its embedding vectors.
\<close>

record 'a tensor2 =
  dim0 :: nat
  dim1 :: nat
  elem :: "nat \<Rightarrow> nat \<Rightarrow> 'a"

definition rows :: "'a tensor2 \<Rightarrow> 'a list list" where
  "rows X = map (\<lambda>b. map (elem X b) [0..<dim1 X]) [0..<dim0 X]"

definition zeros :: "nat \<Rightarrow> nat \<Rightarrow> 'a::zero list list" where
  "zeros b n = replicate b (replicate n 0)"

text \<open>Broadcasting of one dimension: a dimension of size 1 is repeated, any other
  mismatch is torch's RuntimeError.\<close>

definition expand :: "nat \<Rightarrow> 'a list \<Rightarrow> error + 'a list" where
  "expand n xs =
     (if length xs = n then Inr xs
      else if length xs = 1 then Inr (replicate n (hd xs))
      else Inl RuntimeError)"

text \<open>\<^verbatim>\<open>len(range(start, min(stop, n), step))\<close>: the number of positions a slice
  \<^verbatim>\<open>start:stop:step\<close> selects in a dimension of size \<open>n\<close>.\<close>

definition slot_count :: "nat \<Rightarrow> nat \<Rightarrow> nat \<Rightarrow> nat \<Rightarrow> nat" where
  "slot_count start stop step n =
     (if start < min stop n then (min stop n - start + step - 1) div step else 0)"

definition is_slot :: "nat \<Rightarrow> nat \<Rightarrow> nat \<Rightarrow> nat \<Rightarrow> bool" where
  "is_slot start stop step i \<longleftrightarrow> start \<le> i \<and> i < stop \<and> (i - start) mod step = 0"

definition assign_row :: "nat \<Rightarrow> nat \<Rightarrow> nat \<Rightarrow> 'a list \<Rightarrow> 'a list \<Rightarrow> 'a list" where
  "assign_row start stop step vals row =
     map (\<lambda>i. if is_slot start stop step i then vals ! ((i - start) div step) else row ! i)
       [0..<length row]"

text \<open>\<^verbatim>\<open>E[:, start:stop:step, :] = vals\<close>; an absent \<open>stop\<close> is the end of the row. The
  value is broadcast to the batch size and to the number of selected positions.\<close>

definition assign_slice ::
  "nat \<Rightarrow> nat option \<Rightarrow> nat \<Rightarrow> 'a list list \<Rightarrow> 'a list list \<Rightarrow> error + 'a list list" where
  "assign_slice start stop step vals E =
     and_then (expand (length E) vals) (\<lambda>vs.
       collect (map (\<lambda>(v, row).
         let hi = (case stop of None \<Rightarrow> length row | Some s \<Rightarrow> s) in
         and_then (expand (slot_count start hi step (length row)) v) (\<lambda>v'.
           Inr (assign_row start hi step v' row))) (zip vs E)))"

text \<open>\<^verbatim>\<open>torch.cat([A, B], dim=1)\<close>: the batch sizes must agree.\<close>

definition cat1 :: "'a list list \<Rightarrow> 'a list list \<Rightarrow> error + 'a list list" where
  "cat1 A B = (if length A = length B then Inr (map (\<lambda>(a, b). a @ b) (zip A B)) else Inl RuntimeError)"

text \<open>A sequence batch extends another when it has the same rows, each possibly longer at
  its end: what \<^verbatim>\<open>torch.cat(..., dim=1)\<close> does to its first argument.\<close>

definition extends :: "'a list list \<Rightarrow> 'a list list \<Rightarrow> bool" where
  "extends E E' \<longleftrightarrow>
     length E' = length E \<and> (\<forall>b < length E. take (length (E ! b)) (E' ! b) = E ! b)"

section \<open>The interleaved context block of \<^verbatim>\<open>NuplanRasterizeEncoder.forward\<close>\<close>

text \<open>Flat layout (ResNet encoders, lines 258 to 273). The output of the backbone is
  reshaped with \<^verbatim>\<open>reshape(batch_size, action_seq_length, -1)\<close>, which raises when the tensor
  has no element (the \<^verbatim>\<open>-1\<close> cannot be inferred), that is when there is no frame:
  \<^verbatim>\<open>batch_size * action_seq_length = 0\<close>. Then \<^verbatim>\<open>context_length = action_seq_length * 2\<close>, a
  block of zeros, states written at \<^verbatim>\<open>::2\<close>, actions at \<^verbatim>\<open>1::2\<close>. The result is the block
  and the context length.\<close>

definition flat_interleave ::
  "nat \<Rightarrow> nat \<Rightarrow> 'e::zero list list \<Rightarrow> 'e list list \<Rightarrow> error + ('e list list \<times> nat)" where
  "flat_interleave batch_size action_seq_length state_embeds action_embeds =
     (if batch_size * action_seq_length = 0 then Inl RuntimeError
      else
       (let context_length = action_seq_length * 2 in
        and_then (assign_slice 0 None 2 state_embeds (zeros batch_size context_length)) (\<lambda>E1.
        and_then (assign_slice 1 None 2 action_embeds E1) (\<lambda>E2.
        Inr (E2, context_length)))))"

text \<open>Patch layout (ViT encoder): each timestep \<open>j\<close> writes its \<open>sequence_length\<close>
  sub-tokens at \<^verbatim>\<open>j * (1 + sequence_length) : j * (1 + sequence_length) + sequence_length\<close>,
  then the actions are written at \<^verbatim>\<open>sequence_length::1 + sequence_length\<close>.\<close>

definition patch_interleave ::
  "nat \<Rightarrow> nat \<Rightarrow> nat \<Rightarrow> 'e::zero list list list \<Rightarrow> 'e list list \<Rightarrow> error + ('e list list \<times> nat)" where
  "patch_interleave batch_size action_seq_length sequence_length state_embeds action_embeds =
     (let context_length = action_seq_length + action_seq_length * sequence_length in
      and_then
        (fold (\<lambda>j acc. and_then acc
            (assign_slice (j * (1 + sequence_length))
               (Some (j * (1 + sequence_length) + sequence_length)) 1
               (map (\<lambda>st. st ! j) state_embeds)))
          [0..<action_seq_length] (Inr (zeros batch_size context_length))) (\<lambda>E1.
      and_then (assign_slice sequence_length None (1 + sequence_length) action_embeds E1) (\<lambda>E2.
      Inr (E2, context_length))))"

section \<open>Python indexing and reductions\<close>

text \<open>An integer index into a dimension of size \<open>n\<close>: negative indices count from the
  end, anything else out of range raises IndexError.\<close>

definition py_index :: "nat \<Rightarrow> int \<Rightarrow> error + nat" where
  "py_index n i =
     (if 0 \<le> i \<and> i < int n then Inr (nat i)
      else if - int n \<le> i \<and> i < 0 then Inr (nat (i + int n))
      else Inl IndexError)"

text \<open>\<^verbatim>\<open>X[:, i, :]\<close> for an integer \<open>i\<close>.\<close>

definition column :: "'a list list \<Rightarrow> int \<Rightarrow> error + 'a list" where
  "column X i = collect (map (\<lambda>row. and_then (py_index (length row) i) (\<lambda>j. Inr (row ! j))) X)"

text \<open>\<^verbatim>\<open>X[:, i, :] = vals\<close> for a non-negative integer \<open>i\<close>.\<close>

definition assign_column :: "nat \<Rightarrow> 'a list \<Rightarrow> 'a list list \<Rightarrow> error + 'a list list" where
  "assign_column i vals X =
     and_then (expand (length X) vals) (\<lambda>vs.
       collect (map (\<lambda>(v, row). if i < length row then Inr (row[i := v]) else Inl IndexError)
         (zip vs X)))"

text \<open>\<^verbatim>\<open>torch.argmin\<close> and \<^verbatim>\<open>torch.argmax\<close> along the last dimension return the index of
  the first extremal value; an empty dimension is an error.\<close>

fun argmin :: "real list \<Rightarrow> nat" where
  "argmin [] = 0"
| "argmin [x] = 0"
| "argmin (x # y # ys) = (let j = argmin (y # ys) in if x \<le> (y # ys) ! j then 0 else Suc j)"

fun argmax :: "real list \<Rightarrow> nat" where
  "argmax [] = 0"
| "argmax [x] = 0"
| "argmax (x # y # ys) = (let j = argmax (y # ys) in if (y # ys) ! j \<le> x then 0 else Suc j)"

definition torch_argmin :: "real list \<Rightarrow> error + nat" where
  "torch_argmin xs = (if xs = [] then Inl IndexError else Inr (argmin xs))"

definition torch_argmax :: "real list \<Rightarrow> error + nat" where
  "torch_argmax xs = (if xs = [] then Inl IndexError else Inr (argmax xs))"

section \<open>Configuration, collaborators and inputs of the encoder\<close>

datatype kp_mode = No | Specified | Specified_backward | Even_interval

text \<open>The options of \<^verbatim>\<open>model_args\<close> / \<^verbatim>\<open>config\<close> that the encoder's \<^verbatim>\<open>forward\<close> and the
  model's \<^verbatim>\<open>generate\<close> read. \<open>training\<close> is the module's \<^verbatim>\<open>self.training\<close>;
  \<open>use_key_points\<close>, \<open>use_proposal\<close> and \<open>selected_indices\<close> are the attributes of the same
  name that the encoder inherits from its base class.\<close>

record config =
  training :: bool
  raster_encoder_type_vit :: bool
  raster_channels :: nat
  x_random_walk :: real
  y_random_walk :: real
  arf_x_random_walk :: real
  arf_y_random_walk :: real
  camera_image_encoder_dinov2 :: bool
  use_proposal :: nat
  traj_tokenizer_cluster_traj :: bool
  traj_proposal_points_num :: nat
  use_key_points :: kp_mode
  selected_indices :: "int list option"
  separate_kp_encoder :: bool
  kp_decoder_type_mlp :: bool
  k :: int
  predict_yaw :: bool
  token_scenario_tag :: bool
  max_token_len :: nat
  interaction :: bool
  postprocess_yaw :: string

text \<open>
  The learned and external components, as functions. The raster backbones see the whole
  reshaped batch of frames (\<^verbatim>\<open>batch_size * action_seq_length\<close> of them) and yield the
  half-width embedding of frame \<open>n\<close> (for the ViT: of sub-token \<open>s\<close> of frame \<open>n\<close>, the class
  token dropped, \<open>vit_sequence_length\<close> sub-tokens per frame). \<open>traj_bank\<close> is
  \<^verbatim>\<open>traj_tokenizer.trajs\<close>.
\<close>

record ('r, 'h, 'c, 'e) encoder_fns =
  cnn_downsample :: "'r list \<Rightarrow> nat \<Rightarrow> 'h"
  image_downsample :: "'r list \<Rightarrow> nat \<Rightarrow> nat \<Rightarrow> 'h"
  vit_sequence_length :: nat
  cat_halves :: "'h \<Rightarrow> 'h \<Rightarrow> 'e"
  action_m_embed :: "real list \<Rightarrow> 'e"
  action_m_embed_traj :: "real list \<Rightarrow> 'e"
  proposal_m_embed :: "real list \<Rightarrow> 'e"
  kps_m_embed :: "real list \<Rightarrow> 'e"
  camera_token :: "'c \<Rightarrow> nat \<Rightarrow> 'e"
  trajectory_linear_augmentation ::
    "bool \<Rightarrow> real list list list \<Rightarrow> real \<Rightarrow> real \<Rightarrow> real list list list"
  traj_bank :: "real list list list"
  traj_decode :: "nat \<Rightarrow> real list"

text \<open>The keyword arguments of \<^verbatim>\<open>forward\<close>. The rasters are given as the frame sequences
  that \<^verbatim>\<open>cat_raster_seq\<close> makes of them, shape (batch, frames), with their channel number.\<close>

record ('r, 'c) kwargs =
  high_res_raster :: "'r tensor2 option"
  low_res_raster :: "'r tensor2 option"
  raster_c :: nat
  context_actions :: "real list tensor2 option"
  trajectory_label :: "real list tensor2 option"
  camera_images :: "'c tensor2 option"
  is_training :: "bool option"

record info_dict =
  info_trajectory_label :: "real list tensor2"
  info_pred_length :: nat
  info_context_length :: nat
  info_candi_proposal_num :: "nat option"
  info_future_traj_diff :: "real list list option"
  info_future_key_points :: "real list list list option"
  info_selected_indices :: "int list option"

section \<open>The stages of \<^verbatim>\<open>NuplanRasterizeEncoder.forward\<close>\<close>

text \<open>Raster encoding and interleaving (lines 239 to 273). The frames of the batch are
  flattened to one list of \<^verbatim>\<open>batch_size * action_seq_length\<close> frames, as the reshape before
  the backbone does; frame \<open>t\<close> of row \<open>b\<close> is number \<open>b * action_seq_length + t\<close>.\<close>

definition interleave_stage ::
  "config \<Rightarrow> ('r, 'h, 'c, 'e::zero) encoder_fns \<Rightarrow> 'r tensor2 \<Rightarrow> 'r tensor2 \<Rightarrow> 'e list list
     \<Rightarrow> error + ('e list list \<times> nat)" where
  "interleave_stage cfg fns high low action_embeds =
     (let batch_size = dim0 high; action_seq_length = dim1 high;
          high_frames = concat (rows high); low_frames = concat (rows low) in
      if dim0 low * dim1 low \<noteq> batch_size * action_seq_length then Inl RuntimeError
      else if raster_encoder_type_vit cfg then
        (let sequence_length = vit_sequence_length fns;
             state_embeds = map (\<lambda>b. map (\<lambda>t. map (\<lambda>s.
                 cat_halves fns (image_downsample fns high_frames (b * action_seq_length + t) s)
                                (image_downsample fns low_frames (b * action_seq_length + t) s))
               [0..<sequence_length]) [0..<action_seq_length]) [0..<batch_size]
         in patch_interleave batch_size action_seq_length sequence_length state_embeds action_embeds)
      else
        (let state_embeds = map (\<lambda>b. map (\<lambda>t.
                 cat_halves fns (cnn_downsample fns high_frames (b * action_seq_length + t))
                                (cnn_downsample fns low_frames (b * action_seq_length + t)))
               [0..<action_seq_length]) [0..<batch_size]
         in flat_interleave batch_size action_seq_length state_embeds action_embeds))"

text \<open>Camera tokens (lines 275 to 295): the images are reshaped to \<^verbatim>\<open>batch_size * 8\<close>
  images, each gives 257 projected patch tokens, and row \<open>b\<close> receives the \<^verbatim>\<open>8 * 257\<close> tokens
  of its images; \<^verbatim>\<open>context_length += 8 * 257\<close>.\<close>

definition camera_stage ::
  "config \<Rightarrow> ('r, 'h, 'c, 'e) encoder_fns \<Rightarrow> 'c tensor2 option \<Rightarrow> nat \<Rightarrow> 'e list list \<times> nat
     \<Rightarrow> error + ('e list list \<times> nat)" where
  "camera_stage cfg fns cams batch_size st =
     (case st of (input_embeds, context_length) \<Rightarrow>
      if camera_image_encoder_dinov2 cfg then
        (case cams of
           None \<Rightarrow> Inl (AssertionError ''camera_image should not be None'')
         | Some ci \<Rightarrow>
             if dim0 ci * dim1 ci \<noteq> batch_size * 8 then Inl RuntimeError
             else
               (let images = concat (rows ci);
                    camera_image_embed = map (\<lambda>b. map (\<lambda>q.
                        camera_token fns (images ! (b * 8 + q div 257)) (q mod 257))
                      [0..<8 * 257]) [0..<batch_size]
                in and_then (cat1 input_embeds camera_image_embed) (\<lambda>E.
                   Inr (E, context_length + 8 * 257))))
      else Inr (input_embeds, context_length))"

subsection \<open>\<^verbatim>\<open>get_proposal_cluster_embedding\<close>\<close>

text \<open>\<^verbatim>\<open>X[..., [0, 1]]\<close> on one point.\<close>

definition xy :: "real list \<Rightarrow> error + real list" where
  "xy p = (if 2 \<le> length p then Inr [p ! 0, p ! 1] else Inl IndexError)"

text \<open>Broadcasting of two operands along one dimension.\<close>

definition broadcast2 :: "'a list \<Rightarrow> 'b list \<Rightarrow> error + ('a \<times> 'b) list" where
  "broadcast2 xs ys =
     (if length xs = length ys then Inr (zip xs ys)
      else if length xs = 1 then Inr (map (\<lambda>y. (hd xs, y)) ys)
      else if length ys = 1 then Inr (map (\<lambda>x. (x, hd ys)) xs)
      else Inl RuntimeError)"

text \<open>\<^verbatim>\<open>torch.sqrt(torch.sum(diff ** 2, dim=-1))\<close> for one pair of points and
  \<^verbatim>\<open>torch.mean(distances, dim=-1)\<close> over the sequence, in real arithmetic. (The mean of an
  empty sequence is NaN in torch and \<open>0\<close> here; the properties below are stated for
  non-empty trajectories.)\<close>

definition point_distance :: "real list \<Rightarrow> real list \<Rightarrow> real" where
  "point_distance c g = sqrt (sum_list (map (\<lambda>(a, b). (a - b) ^ 2) (zip c g)))"

definition mean :: "real list \<Rightarrow> real" where
  "mean ds = sum_list ds / real (length ds)"

definition ade :: "real list list \<Rightarrow> real list list \<Rightarrow> error + real" where
  "ade cand gt =
     and_then (broadcast2 cand gt) (\<lambda>ps. Inr (mean (map (\<lambda>(c, g). point_distance c g) ps)))"

text \<open>The distances of one ground-truth trajectory to every candidate (one row of
  \<^verbatim>\<open>future_traj_diff\<close>).\<close>

definition future_traj_diff_row :: "real list list list \<Rightarrow> real list list \<Rightarrow> error + real list" where
  "future_traj_diff_row cands gt = collect (map (\<lambda>c. ade c gt) cands)"

text \<open>\<^verbatim>\<open>traj_tokenizer.decode\<close> is not part of the sources.
  Modelled from the spec: the tokenizer's decode is missing; the spec (4.1 b) and the
  source comment \<^verbatim>\<open>bs,context_length+n_candi+1,256\<close> say that the selected class gives one
  embedding, so \<open>traj_decode\<close> yields one (x, y, yaw) vector per selected index, into which
  the source inserts a zero after the first two components.\<close>

definition traj_cls_point :: "('r, 'h, 'c, 'e) encoder_fns \<Rightarrow> nat \<Rightarrow> real list" where
  "traj_cls_point fns gt_index =
     (let v = traj_decode fns gt_index in take 2 v @ [0] @ drop 2 v)"

definition get_proposal_cluster_embedding ::
  "config \<Rightarrow> ('r, 'h, 'c, 'e) encoder_fns \<Rightarrow> info_dict \<Rightarrow> 'e list list \<Rightarrow> real list tensor2
     \<Rightarrow> error + ('e list list \<times> info_dict \<times> 'e list list)" where
  "get_proposal_cluster_embedding cfg fns info input_embeds label =
     (let candidate_proposal = map (take (traj_proposal_points_num cfg)) (traj_bank fns);
          info1 = info\<lparr>info_candi_proposal_num := Some (length candidate_proposal)\<rparr> in
      if length candidate_proposal \<noteq> use_proposal cfg
      then Inl (AssertionError ''proposal count differs from use_proposal'')
      else
        (let candi_embeds = map (\<lambda>c. proposal_m_embed fns (concat c)) candidate_proposal;
             bs = length input_embeds in
         and_then (cat1 input_embeds (replicate bs candi_embeds)) (\<lambda>E1.
         and_then (collect (map (\<lambda>t. collect (map xy t)) (rows label))) (\<lambda>traj_gt.
         and_then (collect (map (\<lambda>c. collect (map xy c)) candidate_proposal)) (\<lambda>cand_xy.
         and_then (broadcast2 (replicate bs cand_xy) traj_gt) (\<lambda>pairs.
         and_then (collect (map (\<lambda>(cs, gt). future_traj_diff_row cs gt) pairs)) (\<lambda>distances.
         and_then (collect (map torch_argmin distances)) (\<lambda>gt_index.
         and_then (cat1 E1 (map (\<lambda>j. [action_m_embed_traj fns (traj_cls_point fns j)]) gt_index))
           (\<lambda>E2.
         Inr (E2, info1\<lparr>info_future_traj_diff := Some distances\<rparr>, replicate bs candi_embeds))))))))))"

subsection \<open>Key-point slot selection\<close>

text \<open>The positions of a trajectory of length \<open>n\<close> that become key points, as lines 265 to
  269 of \<^verbatim>\<open>generate\<close> take them: the selected indices for the \<^verbatim>\<open>specified\<close> modes, every
  20th position starting at 19 otherwise.\<close>

definition ar_future_interval :: nat where
  "ar_future_interval = 20"

definition key_point_indices :: "kp_mode \<Rightarrow> int list option \<Rightarrow> nat \<Rightarrow> error + nat list" where
  "key_point_indices mode sel n =
     (if mode = Specified \<or> mode = Specified_backward then
        (case sel of None \<Rightarrow> Inl TypeError | Some idx \<Rightarrow> collect (map (py_index n) idx))
      else Inr (map (\<lambda>j. ar_future_interval - 1 + j * ar_future_interval)
                 [0..<slot_count (ar_future_interval - 1) n ar_future_interval n]))"

text \<open>\<^verbatim>\<open>select_keypoints\<close> belongs to the encoder's base class, which is not part of the
  sources.
  Modelled from the spec: \<^verbatim>\<open>TrajectoryEncoder.select_keypoints\<close> is missing; by 4.4 it
  takes from the trajectory label the points at the explicit indices or at the fixed
  stride, the rule that \<^verbatim>\<open>generate\<close> applies to its dummy label.\<close>

definition select_keypoints :: "config \<Rightarrow> info_dict \<Rightarrow> error + real list tensor2" where
  "select_keypoints cfg info =
     (let label = info_trajectory_label info in
      and_then (key_point_indices (use_key_points cfg) (selected_indices cfg) (dim1 label)) (\<lambda>idxs.
      Inr \<lparr>dim0 = dim0 label, dim1 = length idxs, elem = (\<lambda>b j. elem label b (idxs ! j))\<rparr>))"

definition key_point_stage ::
  "config \<Rightarrow> ('r, 'h, 'c, 'e) encoder_fns \<Rightarrow> bool \<Rightarrow> 'e list list \<times> info_dict
     \<Rightarrow> error + ('e list list \<times> info_dict)" where
  "key_point_stage cfg fns aug_training st =
     (case st of (input_embeds, info) \<Rightarrow>
      if use_key_points cfg = No then Inr (input_embeds, info\<lparr>info_future_key_points := None\<rparr>)
      else
        and_then (select_keypoints cfg info) (\<lambda>future_key_points.
        if dim1 future_key_points = 0
        then Inl (AssertionError ''future points not enough to sample'')
        else
          (let future_key_points_aug = map (map (take 2))
                 (trajectory_linear_augmentation fns aug_training (rows future_key_points)
                    (arf_x_random_walk cfg) (arf_y_random_walk cfg)) in
           and_then
             (if separate_kp_encoder cfg then
                (if kp_decoder_type_mlp cfg
                 then cat1 input_embeds (map (map (kps_m_embed fns)) future_key_points_aug)
                 else Inr input_embeds)
              else Inl (AssertionError ''deprecated for clarity, use separate_kp_encoder instead''))
             (\<lambda>E. Inr (E, info\<lparr>info_future_key_points := Some (rows future_key_points)\<rparr>)))))"

subsection \<open>\<^verbatim>\<open>forward\<close>\<close>

definition default_label :: "nat \<Rightarrow> real list tensor2" where
  "default_label batch = \<lparr>dim0 = batch, dim1 = 80, elem = (\<lambda>b t. replicate 4 0)\<rparr>"

definition require :: "'a option \<Rightarrow> error \<Rightarrow> error + 'a" where
  "require v e = (case v of None \<Rightarrow> Inl e | Some x \<Rightarrow> Inr x)"

definition check :: "bool \<Rightarrow> error \<Rightarrow> error + unit" where
  "check ok e = (if ok then Inr () else Inl e)"

definition proposal_stage ::
  "config \<Rightarrow> ('r, 'h, 'c, 'e) encoder_fns \<Rightarrow> real list tensor2 \<Rightarrow> 'e list list \<times> info_dict
     \<Rightarrow> error + ('e list list \<times> info_dict)" where
  "proposal_stage cfg fns label st =
     (case st of (input_embeds, info) \<Rightarrow>
      if use_proposal cfg \<noteq> 0 then
        (if traj_tokenizer_cluster_traj cfg then
           and_then (get_proposal_cluster_embedding cfg fns info input_embeds label)
             (\<lambda>(E, info', candi_embeds). Inr (E, info'))
         else Inl (AssertionError ''only support cluster_traj for now''))
      else Inr (input_embeds, info))"

definition forward ::
  "config \<Rightarrow> ('r, 'h, 'c, 'e::zero) encoder_fns \<Rightarrow> ('r, 'c) kwargs
     \<Rightarrow> error + ('e list list \<times> info_dict)" where
  "forward cfg fns kw =
     and_then (require (is_training kw) (AssertionError ''is_training should not be None'')) (\<lambda>tr.
     and_then (check (training cfg = tr) (AssertionError ''training status should be the same''))
       (\<lambda>_.
     and_then
       (case trajectory_label kw of
          Some l \<Rightarrow> Inr l
        | None \<Rightarrow> and_then (require (high_res_raster kw) AttributeError)
                    (\<lambda>h. Inr (default_label (dim0 h)))) (\<lambda>label.
     and_then (require (context_actions kw) TypeError) (\<lambda>ca.
     and_then (require (high_res_raster kw) AttributeError) (\<lambda>high.
     and_then (require (low_res_raster kw) AttributeError) (\<lambda>low.
     and_then (check (raster_c kw = raster_channels cfg) (AssertionError ''raster channel number''))
       (\<lambda>_.
     let pred_length = dim1 label;
         batch_size = dim0 high;
         action_embeds = map (map (action_m_embed fns))
           (trajectory_linear_augmentation fns tr (rows ca) (x_random_walk cfg) (y_random_walk cfg))
     in
     and_then (interleave_stage cfg fns high low action_embeds) (\<lambda>st1.
     and_then (camera_stage cfg fns (camera_images kw) batch_size st1) (\<lambda>(E2, context_length).
     let info = \<lparr>info_trajectory_label = label, info_pred_length = pred_length,
                 info_context_length = context_length,
                 info_candi_proposal_num = None, info_future_traj_diff = None,
                 info_future_key_points = None, info_selected_indices = None\<rparr> in
     and_then (proposal_stage cfg fns label (E2, info)) (\<lambda>st3.
     and_then (key_point_stage cfg fns tr st3) (\<lambda>(E4, info4).
     and_then (cat1 E4 (zeros batch_size pred_length)) (\<lambda>E5.
     Inr (E5, info4\<lparr>info_selected_indices := selected_indices cfg\<rparr>)))))))))))))"

section \<open>\<^verbatim>\<open>TrajectoryGPT.generate\<close>\<close>

text \<open>
  The collaborators of the model: the backbone (embeddings, attention mask and position
  ids to hidden states, on the whole batch), the key-point decoder (the hidden states of
  the batch to the candidates, batch by candidate by point, and their scores), the
  trajectory decoder, and the IDM reference: for a future index the reference point in ego
  coordinates, (x, y, heading), as \<^verbatim>\<open>change_coordination\<close> and \<^verbatim>\<open>normalize_angle\<close> give it,
  absent where the index is outside the reference.
\<close>

record ('e, 's) model_fns =
  transformer :: "'e list list \<Rightarrow> int list list option \<Rightarrow> int list list option \<Rightarrow> 's list list"
  generate_keypoints :: "'s list \<Rightarrow> real list list list \<times> real list list"
  compute_traj_loss :: "'s list list \<Rightarrow> real list tensor2 \<Rightarrow> info_dict \<Rightarrow> real list list list"
  idm_reference_global :: "(int \<Rightarrow> (real \<times> real \<times> real) option) option"

fun cumsum :: "int \<Rightarrow> int list \<Rightarrow> int list" where
  "cumsum acc [] = []"
| "cumsum acc (x # xs) = (acc + x) # cumsum (acc + x) xs"

definition prepare_position_ids_for_generation :: "int list \<Rightarrow> int list" where
  "prepare_position_ids_for_generation attention_mask =
     map (\<lambda>(m, c). if m = 0 then 1 else c - 1) (zip attention_mask (cumsum 0 attention_mask))"

definition kp_start_index :: "config \<Rightarrow> nat \<Rightarrow> nat" where
  "kp_start_index cfg context_length =
     (let additional_token_num = (if token_scenario_tag cfg then max_token_len cfg else 0)
      in additional_token_num + context_length * 2)"

text \<open>\<^verbatim>\<open>key_points_logit.reshape(batch_size, k, -1)\<close>: the elements of the tensor in row-major
  order are cut into \<^verbatim>\<open>batch_size * k\<close> points of equal width, whatever the shape of the
  tensor was; the reshape raises when \<^verbatim>\<open>batch_size * k\<close> is 0 or does not divide the number
  of elements.\<close>

definition reshape_candidates ::
  "nat \<Rightarrow> nat \<Rightarrow> real list list list \<Rightarrow> error + real list list list" where
  "reshape_candidates batch_size kk key_points_logit =
     (let flat = concat (concat key_points_logit); n = length flat in
      if batch_size * kk = 0 \<or> n mod (batch_size * kk) \<noteq> 0 then Inl RuntimeError
      else
        (let w = n div (batch_size * kk) in
         Inr (map (\<lambda>b. map (\<lambda>j. take w (drop ((b * kk + j) * w) flat)) [0..<kk])
                [0..<batch_size])))"

text \<open>The index pairs of \<^verbatim>\<open>[torch.arange(batch_size), idx, :]\<close>: the two index vectors are
  broadcast against each other.\<close>

definition gather_pairs :: "nat \<Rightarrow> nat list \<Rightarrow> error + (nat \<times> nat) list" where
  "gather_pairs batch_size idx =
     (if length idx = batch_size then Inr (zip [0..<batch_size] idx)
      else if length idx = 1 then Inr (map (\<lambda>b. (b, idx ! 0)) [0..<batch_size])
      else if batch_size = 1 then Inr (map (\<lambda>j. (0, j)) idx)
      else Inl IndexError)"

text \<open>Lines 293 to 299, with the read \<^verbatim>\<open>key_points_logit[:, 0, :]\<close> that follows: the point of
  every batch row that the step uses. For \<^verbatim>\<open>k > 1\<close> the candidates are reshaped to
  (batch, k, point), each row takes the candidate at the arg-max of its scores, and the
  selection is reshaped to (batch, 1, point); otherwise the first returned candidate is
  read.\<close>

definition select_candidate ::
  "int \<Rightarrow> nat \<Rightarrow> real list list list \<times> real list list \<Rightarrow> error + real list list" where
  "select_candidate kk batch_size out =
     (case out of (key_points_logit, pred_logits) \<Rightarrow>
      if kk > 1 then
        and_then (reshape_candidates batch_size (nat kk) key_points_logit) (\<lambda>cands.
        and_then (collect (map torch_argmax pred_logits)) (\<lambda>idx.
        and_then (gather_pairs batch_size idx) (\<lambda>pairs.
        and_then (collect (map (\<lambda>(b, j). if j < nat kk then Inr (cands ! b ! j)
                                          else Inl IndexError) pairs)) (\<lambda>selected.
        Inr (if batch_size = 1 then [concat selected] else selected)))))
      else column key_points_logit 0)"

text \<open>Lines 300 to 304: the point is written into a zero vector of width 4, whole when
  yaw is predicted, into the first two components otherwise.\<close>

definition materialize :: "bool \<Rightarrow> nat \<Rightarrow> real list list \<Rightarrow> error + real list list" where
  "materialize yaw batch_size logit =
     and_then (expand batch_size logit) (\<lambda>ps.
       collect (map (\<lambda>p. if yaw then expand 4 p
                          else and_then (expand 2 p) (\<lambda>q. Inr (q @ [0, 0]))) ps))"

text \<open>Lines 324 to 333: with an IDM reference and \<^verbatim>\<open>specified_backward\<close>, the point of batch
  row 0 (and of no other row) is replaced by the reference at \<^verbatim>\<open>selected_indices[i]\<close>.\<close>

definition idm_override ::
  "config \<Rightarrow> ('e, 's) model_fns \<Rightarrow> int list option \<Rightarrow> nat \<Rightarrow> real list list
     \<Rightarrow> error + real list list" where
  "idm_override cfg m sel i pts =
     (case idm_reference_global m of
        None \<Rightarrow> Inr pts
      | Some ref \<Rightarrow>
          if use_key_points cfg \<noteq> Specified_backward then Inr pts
          else
            and_then (require sel TypeError) (\<lambda>indices.
            and_then (py_index (length indices) (int i)) (\<lambda>j.
            and_then (require (ref (indices ! j)) IndexError) (\<lambda>(x, y, heading).
            (case pts of
               [] \<Rightarrow> Inl IndexError
             | p # rest \<Rightarrow> Inr ([x, y, p ! 2, heading] # rest))))))"

text \<open>One iteration of the loop of lines 279 to 340, in its three parts. Lines 280 to
  288: the backbone runs on the prefix \<^verbatim>\<open>input_embeds[:, :kp_start_index + i, :]\<close> with an
  all-ones attention mask and the position ids made from it.\<close>

definition backbone_prefix :: "('e, 's) model_fns \<Rightarrow> nat \<Rightarrow> nat \<Rightarrow> 'e list list \<Rightarrow> 's list list" where
  "backbone_prefix m kp i input_embeds =
     (let input_embeds_current = map (take (kp + i)) input_embeds;
          attention_mask = map (\<lambda>r. replicate (length r) 1) input_embeds_current;
          position_ids = map prepare_position_ids_for_generation attention_mask
      in transformer m input_embeds_current (Some attention_mask) (Some position_ids))"

text \<open>Lines 289 to 333: the hidden state at index \<^verbatim>\<open>kp_start_index + i - 1\<close> is read, reshaped
  to (batch, 1, width) and decoded, the point is materialised and, where it applies,
  overridden: the result is \<^verbatim>\<open>pred_key_point\<close>, one point of width 4 per batch row.\<close>

definition point_of_hidden ::
  "config \<Rightarrow> ('e, 's) model_fns \<Rightarrow> nat \<Rightarrow> int list option \<Rightarrow> nat \<Rightarrow> 's list
     \<Rightarrow> error + real list list" where
  "point_of_hidden cfg m batch_size sel i future_key_point_hidden_state =
     and_then (check (length future_key_point_hidden_state = batch_size) RuntimeError) (\<lambda>_.
     and_then (select_candidate (k cfg) batch_size
                 (generate_keypoints m future_key_point_hidden_state)) (\<lambda>key_points_logit.
     and_then (materialize (predict_yaw cfg) batch_size key_points_logit) (\<lambda>p0.
     idm_override cfg m sel i p0)))"

definition decode_key_point ::
  "config \<Rightarrow> ('e, 's) model_fns \<Rightarrow> nat \<Rightarrow> nat \<Rightarrow> int list option \<Rightarrow> nat \<Rightarrow> 's list list
     \<Rightarrow> error + real list list" where
  "decode_key_point cfg m batch_size kp sel i hidden =
     and_then (column hidden (int (kp + i) - 1)) (point_of_hidden cfg m batch_size sel i)"

text \<open>Lines 334 to 340: the embedding of the point is written at index
  \<^verbatim>\<open>kp_start_index + i\<close>, and the point (its first two components when yaw is not
  predicted) is appended to \<^verbatim>\<open>pred_key_points_during_generate\<close>.\<close>

definition returned_point :: "config \<Rightarrow> real list list \<Rightarrow> real list list" where
  "returned_point cfg pred_key_point =
     (if predict_yaw cfg then pred_key_point else map (take 2) pred_key_point)"

definition fill_step ::
  "config \<Rightarrow> ('e, 's) model_fns \<Rightarrow> (real list \<Rightarrow> 'e) \<Rightarrow> nat \<Rightarrow> nat \<Rightarrow> int list option \<Rightarrow> nat
     \<Rightarrow> 'e list list \<Rightarrow> error + ('e list list \<times> real list list)" where
  "fill_step cfg m emb batch_size kp sel i input_embeds =
     and_then (decode_key_point cfg m batch_size kp sel i (backbone_prefix m kp i input_embeds))
       (\<lambda>pred_key_point.
     and_then (assign_column (kp + i) (map emb pred_key_point) input_embeds) (\<lambda>E'.
     Inr (E', returned_point cfg pred_key_point)))"

fun fill_loop ::
  "config \<Rightarrow> ('e, 's) model_fns \<Rightarrow> (real list \<Rightarrow> 'e) \<Rightarrow> nat \<Rightarrow> nat \<Rightarrow> int list option
     \<Rightarrow> nat list \<Rightarrow> 'e list list \<times> real list list list
     \<Rightarrow> error + ('e list list \<times> real list list list)" where
  "fill_loop cfg m emb batch_size kp sel [] st = Inr st"
| "fill_loop cfg m emb batch_size kp sel (i # steps) st =
     and_then (fill_step cfg m emb batch_size kp sel i (fst st)) (\<lambda>(E', p).
       fill_loop cfg m emb batch_size kp sel steps (E', snd st @ [p]))"

text \<open>Lines 262 to 343: the key-point block of \<^verbatim>\<open>generate\<close>, from the encoder's output to
  the filled sequence and \<^verbatim>\<open>key_points_logits\<close> (batch by key point by point).
  \<^verbatim>\<open>from_joint_to_marginal\<close> reads \<^verbatim>\<open>agents_num_per_scenario\<close>, a key that this encoder's
  dictionary does not have.\<close>

definition key_point_generation ::
  "config \<Rightarrow> ('e, 's) model_fns \<Rightarrow> (real list \<Rightarrow> 'e) \<Rightarrow> info_dict \<Rightarrow> 'e list list
     \<Rightarrow> error + ('e list list \<times> real list list list option)" where
  "key_point_generation cfg m emb info input_embeds =
     (let sel = info_selected_indices info;
          pred_length = info_pred_length info;
          batch_size = dim0 (info_trajectory_label info);
          kp = kp_start_index cfg (info_context_length info) in
      if use_key_points cfg \<noteq> No then
        and_then (check (sel \<noteq> None \<and> sel \<noteq> Some [])
                    (AssertionError ''selected_indices is None or empty'')) (\<lambda>_.
        and_then (key_point_indices (use_key_points cfg) sel pred_length) (\<lambda>idxs.
        let key_points_num = length idxs in
        and_then (check (key_points_num > 0)
                    (AssertionError ''future points not enough to sample'')) (\<lambda>_.
        let future_key_embeds_dummy =
              replicate batch_size (replicate key_points_num (emb (replicate 4 0))) in
        and_then (check (\<not> interaction cfg) KeyError) (\<lambda>_.
        and_then (assign_slice kp (Some (kp + key_points_num)) 1 future_key_embeds_dummy
                    input_embeds) (\<lambda>E0.
        and_then (fill_loop cfg m emb batch_size kp sel [0..<key_points_num] (E0, [])) (\<lambda>(E', preds).
        Inr (E', Some (map (\<lambda>b. map (\<lambda>p. p ! b) preds) [0..<batch_size]))))))))
      else Inr (input_embeds, None))"

definition interplate_yaw :: "real list list list \<Rightarrow> string \<Rightarrow> error + real list list list" where
  "interplate_yaw pred_traj mode =
     (if mode = ''normal'' then Inr pred_traj
      else if mode = ''interplate'' \<or> mode = ''hybrid''
      then Inl (AssertionError ''this function is tested not better than normal mode'')
      else Inr pred_traj)"

definition generate ::
  "config \<Rightarrow> ('r, 'h, 'c, 'e::zero) encoder_fns \<Rightarrow> ('e, 's) model_fns \<Rightarrow> ('r, 'c) kwargs
     \<Rightarrow> error + real list list list" where
  "generate cfg fns m kw =
     and_then (check (is_training kw = None) TypeError) (\<lambda>_.
     and_then (forward cfg fns (kw\<lparr>is_training := Some False\<rparr>)) (\<lambda>(input_embeds, info).
     and_then (key_point_generation cfg m (action_m_embed fns) info input_embeds)
       (\<lambda>(E, key_points_logits).
     and_then (check (\<not> interaction cfg) KeyError) (\<lambda>_.
     let hidden = transformer m E None None;
         traj = compute_traj_loss m hidden (info_trajectory_label info) info in
     and_then (if predict_yaw cfg then interplate_yaw traj (postprocess_yaw cfg) else Inr traj)
       (\<lambda>traj_logits.
     (case key_points_logits of
        Some kps \<Rightarrow> cat1 kps traj_logits
      | None \<Rightarrow> Inr traj_logits))))))"

section \<open>Row-wise collaborators\<close>

text \<open>The contract that the spec puts on the external backbone and decoder: with the
  all-ones mask and the position ids of the generation loop, the hidden states of a batch
  row are a function \<open>tf\<close> of that row alone, and the candidates \<open>dk\<close> and scores \<open>ds\<close> of
  a batch row are functions of that row's hidden state alone.\<close>

definition row_wise_backbone :: "('e, 's) model_fns \<Rightarrow> ('e list \<Rightarrow> 's list) \<Rightarrow> bool" where
  "row_wise_backbone m tf \<longleftrightarrow>
     (\<forall>X. transformer m X
            (Some (map (\<lambda>r. replicate (length r) 1) X))
            (Some (map prepare_position_ids_for_generation (map (\<lambda>r. replicate (length r) 1) X)))
          = map tf X)"

definition row_wise_decoder ::
  "('e, 's) model_fns \<Rightarrow> ('s \<Rightarrow> real list list) \<Rightarrow> ('s \<Rightarrow> real list) \<Rightarrow> bool" where
  "row_wise_decoder m dk ds \<longleftrightarrow> (\<forall>hs. generate_keypoints m hs = (map dk hs, map ds hs))"


text \<open>One iteration of the loop as it acts on a single row when the collaborators are
  row-wise and the IDM override is not in force, in the words of the steps 1 to 5 of the
  spec's 4.3: the prefix of the row, its hidden state at the last position, the candidate
  with the highest score (the first candidate when \<open>k\<close> is 1), the point of width 4, its
  embedding written at the slot. It is compared with \<open>fill_step\<close> below.\<close>

definition row_select :: "int \<Rightarrow> real list list \<Rightarrow> real list \<Rightarrow> error + real list" where
  "row_select kk c s =
     (if kk > 1 then
        (if int (length c) \<noteq> kk then Inl RuntimeError
         else and_then (torch_argmax s) (\<lambda>j. if j < length c then Inr (c ! j) else Inl IndexError))
      else and_then (py_index (length c) 0) (\<lambda>j. Inr (c ! j)))"

definition row_materialize :: "bool \<Rightarrow> real list \<Rightarrow> error + real list" where
  "row_materialize yaw p =
     (if yaw then expand 4 p else and_then (expand 2 p) (\<lambda>q. Inr (q @ [0, 0])))"

definition row_point ::
  "config \<Rightarrow> ('s \<Rightarrow> real list list) \<Rightarrow> ('s \<Rightarrow> real list) \<Rightarrow> 's \<Rightarrow> error + real list" where
  "row_point cfg dk ds h =
     and_then (row_select (k cfg) (dk h) (ds h)) (row_materialize (predict_yaw cfg))"

definition row_fill_step ::
  "config \<Rightarrow> ('e list \<Rightarrow> 's list) \<Rightarrow> ('s \<Rightarrow> real list list) \<Rightarrow> ('s \<Rightarrow> real list)
     \<Rightarrow> (real list \<Rightarrow> 'e) \<Rightarrow> nat \<Rightarrow> nat \<Rightarrow> 'e list \<Rightarrow> error + ('e list \<times> real list)" where
  "row_fill_step cfg tf dk ds emb kp i row =
     (let hidden = tf (take (kp + i) row) in
      and_then (py_index (length hidden) (int (kp + i) - 1)) (\<lambda>j.
      and_then (row_point cfg dk ds (hidden ! j)) (\<lambda>pt.
      if kp + i < length row
      then Inr (row[kp + i := emb pt], if predict_yaw cfg then pt else take 2 pt)
      else Inl IndexError)))"

section \<open>Concrete inputs\<close>

text \<open>A small configuration, collaborators and keyword arguments on which the definitions
  are evaluated: one batch row, one context timestep, frames and camera images numbered
  by naturals, embeddings that are real numbers. The base configuration is the flat
  layout in evaluation mode without camera, proposals or key points.\<close>

definition cfg0 :: config where
  "cfg0 = \<lparr>training = False, raster_encoder_type_vit = False, raster_channels = 33,
     x_random_walk = 0, y_random_walk = 0, arf_x_random_walk = 0, arf_y_random_walk = 0,
     camera_image_encoder_dinov2 = False, use_proposal = 0, traj_tokenizer_cluster_traj = True,
     traj_proposal_points_num = 1, use_key_points = No, selected_indices = None,
     separate_kp_encoder = True, kp_decoder_type_mlp = True, k = 1, predict_yaw = False,
     token_scenario_tag = False, max_token_len = 0, interaction = False,
     postprocess_yaw = ''normal''\<rparr>"

definition fns0 :: "(nat, nat, nat, real) encoder_fns" where
  "fns0 = \<lparr>cnn_downsample = (\<lambda>frames n. frames ! n + 1),
     image_downsample = (\<lambda>frames n s. frames ! n * 10 + s),
     vit_sequence_length = 2,
     cat_halves = (\<lambda>a b. real (a * 100 + b)),
     action_m_embed = (\<lambda>p. sum_list p + 1),
     action_m_embed_traj = (\<lambda>p. sum_list p + 2),
     proposal_m_embed = (\<lambda>p. sum_list p + 3),
     kps_m_embed = (\<lambda>p. sum_list p + 4),
     camera_token = (\<lambda>image p. real (image + p)),
     trajectory_linear_augmentation = (\<lambda>tr x a b. x),
     traj_bank = [[[1, 2, 0]]],
     traj_decode = (\<lambda>j. [1, 2, 0])\<rparr>"

definition kw0 :: "(nat, nat) kwargs" where
  "kw0 = \<lparr>high_res_raster = Some \<lparr>dim0 = 1, dim1 = 1, elem = (\<lambda>b t. 5)\<rparr>,
     low_res_raster = Some \<lparr>dim0 = 1, dim1 = 1, elem = (\<lambda>b t. 6)\<rparr>,
     raster_c = 33,
     context_actions = Some \<lparr>dim0 = 1, dim1 = 1, elem = (\<lambda>b t. [1, 2, 0, 0])\<rparr>,
     trajectory_label = None,
     camera_images = None,
     is_training = Some False\<rparr>"

text \<open>The same arguments with eight camera images, and with a zero label of one future
  point.\<close>

definition kw_cam :: "(nat, nat) kwargs" where
  "kw_cam = kw0\<lparr>camera_images := Some \<lparr>dim0 = 1, dim1 = 8, elem = (\<lambda>b c. c)\<rparr>\<rparr>"

definition kw1 :: "(nat, nat) kwargs" where
  "kw1 = kw0\<lparr>trajectory_label := Some \<lparr>dim0 = 1, dim1 = 1, elem = (\<lambda>b t. [0, 0, 0, 0])\<rparr>\<rparr>"

text \<open>Key points at the explicit index 0 of a label of three future points, and a model
  whose backbone returns its input embeddings as hidden states and whose decoder turns the
  hidden state \<open>h\<close> into the single candidate \<open>(h, h + 1)\<close>.\<close>

definition cfg_kp :: config where
  "cfg_kp = cfg0\<lparr>use_key_points := Specified, selected_indices := Some [0]\<rparr>"

definition kw3 :: "(nat, nat) kwargs" where
  "kw3 = kw0\<lparr>trajectory_label := Some \<lparr>dim0 = 1, dim1 = 3, elem = (\<lambda>b t. [0, 0, 0, 0])\<rparr>\<rparr>"

definition m0 :: "(real, real) model_fns" where
  "m0 = \<lparr>transformer = (\<lambda>X mask pos. X),
     generate_keypoints = (\<lambda>hs. (map (\<lambda>h. [[h, h + 1]]) hs, map (\<lambda>h. [1]) hs)),
     compute_traj_loss = (\<lambda>hs label info. map (\<lambda>r. map (\<lambda>h. [h, h]) (drop (length r - dim1 label) r)) hs),
     idm_reference_global = None\<rparr>"

text \<open>The backward mode with an IDM reference that gives the point (9, 9) and heading 0
  for every index.\<close>

definition cfg_idm :: config where
  "cfg_idm = cfg0\<lparr>use_key_points := Specified_backward, selected_indices := Some [0]\<rparr>"

definition m_idm :: "(real, real) model_fns" where
  "m_idm = m0\<lparr>idm_reference_global := Some (\<lambda>n. Some (9, 9, 0))\<rparr>"

text \<open>The arguments as a caller of \<^verbatim>\<open>generate\<close> gives them: without \<^verbatim>\<open>is_training\<close>, which
  \<^verbatim>\<open>generate\<close> passes to the encoder itself.\<close>

definition kw_gen :: "(nat, nat) kwargs" where
  "kw_gen = kw3\<lparr>is_training := None\<rparr>"

text \<open>Two candidates per row: the decoder turns the hidden state \<open>h\<close> into the candidates
  \<open>(h, h + 1)\<close> and \<open>(h + 2, h + 3)\<close> with the scores \<open>h\<close> and 3.\<close>

definition cfg_k2 :: config where
  "cfg_k2 = cfg_kp\<lparr>k := 2\<rparr>"

definition m_k2 :: "(real, real) model_fns" where
  "m_k2 = m0\<lparr>generate_keypoints :=
     (\<lambda>hs. (map (\<lambda>h. [[h, h + 1], [h + 2, h + 3]]) hs, map (\<lambda>h. [h, 3]) hs))\<rparr>"

text \<open>A bank of three candidates of one point (x, y, yaw), of which the last two differ in
  their yaw only, and a label of one point (x, y, z, yaw) at the position of these two.\<close>

definition fns_bank :: "(nat, nat, nat, real) encoder_fns" where
  "fns_bank = fns0\<lparr>traj_bank := [[[0, 0, 0]], [[1, 2, 0]], [[1, 2, 5]]],
     traj_decode := (\<lambda>j. [[0, 0, 0], [1, 2, 0], [1, 2, 5]] ! j)\<rparr>"

definition kw_gt :: "(nat, nat) kwargs" where
  "kw_gt = kw0\<lparr>trajectory_label := Some \<lparr>dim0 = 1, dim1 = 1, elem = (\<lambda>b t. [1, 2, 0, 5])\<rparr>\<rparr>"

section \<open>Properties: results and reductions\<close>

lemma and_then_Inr [simp]: "and_then (Inr x) f = f x"
  by (simp add: and_then_def)

lemma and_then_Inl [simp]: "and_then (Inl e) f = Inl e"
  by (simp add: and_then_def)

lemma and_then_eq_Inr: "and_then m f = Inr y \<longleftrightarrow> (\<exists>x. m = Inr x \<and> f x = Inr y)"
  by (cases m) simp_all

lemma collect_eq_Inr: "collect ms = Inr xs \<longleftrightarrow> ms = map Inr xs"
proof (induction ms arbitrary: xs)
  case Nil
  then show ?case by auto
next
  case (Cons m ms)
  show ?case
  proof (cases m)
    case (Inl e)
    then show ?thesis by (cases xs) auto
  next
    case (Inr x)
    then show ?thesis using Cons.IH
      by (cases xs) (auto simp: and_then_eq_Inr)
  qed
qed

lemma collect_map_Inr: "(\<And>x. x \<in> set xs \<Longrightarrow> g x = Inr (f x)) \<Longrightarrow> collect (map g xs) = Inr (map f xs)"
  by (simp add: collect_eq_Inr)

lemma argmax_less: "xs \<noteq> [] \<Longrightarrow> argmax xs < length xs"
  by (induction xs rule: argmax.induct) (auto simp: Let_def)



lemma expand_same [simp]: "length xs = n \<Longrightarrow> expand n xs = Inr xs"
  by (simp add: expand_def)


section \<open>Properties: the interleaved layouts\<close>

lemma assign_slice_rect:
  assumes "length vals = length E" and "\<forall>v \<in> set vals. length v = m"
    and "\<forall>r \<in> set E. length r = n"
    and "m = slot_count start (case stop of None \<Rightarrow> n | Some s \<Rightarrow> s) step n"
  shows "assign_slice start stop step vals E =
           Inr (map (\<lambda>(v, row). assign_row start (case stop of None \<Rightarrow> n | Some s \<Rightarrow> s) step v row)
                  (zip vals E))"
proof -
  have "collect (map (\<lambda>(v, row).
         let hi = (case stop of None \<Rightarrow> length row | Some s \<Rightarrow> s) in
         and_then (expand (slot_count start hi step (length row)) v) (\<lambda>v'.
           Inr (assign_row start hi step v' row))) (zip vals E))
      = Inr (map (\<lambda>(v, row). assign_row start (case stop of None \<Rightarrow> n | Some s \<Rightarrow> s) step v row)
                  (zip vals E))"
  proof (rule collect_map_Inr)
    fix x assume "x \<in> set (zip vals E)"
    obtain v row where x: "x = (v, row)" by (cases x)
    have "v \<in> set vals" "row \<in> set E"
      using \<open>x \<in> set (zip vals E)\<close> x by (auto dest: set_zip_leftD set_zip_rightD)
    then have "length v = m" "length row = n" using assms(2,3) by auto
    then show "(case x of (v, row) \<Rightarrow>
         let hi = (case stop of None \<Rightarrow> length row | Some s \<Rightarrow> s) in
         and_then (expand (slot_count start hi step (length row)) v) (\<lambda>v'.
           Inr (assign_row start hi step v' row)))
       = Inr (case x of (v, row) \<Rightarrow> assign_row start (case stop of None \<Rightarrow> n | Some s \<Rightarrow> s) step v row)"
      using x assms(4) by (cases stop) (simp_all add: Let_def)
  qed
  then show ?thesis using assms(1) by (simp add: assign_slice_def)
qed

lemma assign_slice_Some:
  assumes "length vals = length E" and "\<forall>v \<in> set vals. length v = m"
    and "\<forall>r \<in> set E. length r = n" and "m = slot_count start s step n"
  shows "assign_slice start (Some s) step vals E =
           Inr (map (\<lambda>(v, row). assign_row start s step v row) (zip vals E))"
  using assign_slice_rect[where stop = "Some s", OF assms(1,2,3)] assms(4) by simp

lemma assign_slice_None:
  assumes "length vals = length E" and "\<forall>v \<in> set vals. length v = m"
    and "\<forall>r \<in> set E. length r = n" and "m = slot_count start n step n"
  shows "assign_slice start None step vals E =
           Inr (map (\<lambda>(v, row). assign_row start n step v row) (zip vals E))"
  using assign_slice_rect[where stop = None, OF assms(1,2,3)] assms(4) by simp

lemma length_assign_row [simp]: "length (assign_row start stop step vals row) = length row"
  by (simp add: assign_row_def)

lemma nth_assign_row:
  "i < length row \<Longrightarrow> assign_row start stop step vals row ! i =
     (if is_slot start stop step i then vals ! ((i - start) div step) else row ! i)"
  by (simp add: assign_row_def)

lemma length_zeros [simp]: "length (zeros b n) = b"
  by (simp add: zeros_def)

lemma nth_zeros [simp]: "i < b \<Longrightarrow> zeros b n ! i = replicate n 0"
  by (simp add: zeros_def)

lemma set_zeros: "r \<in> set (zeros b n) \<Longrightarrow> r = replicate n 0"
  by (auto simp: zeros_def)

lemma slot_count_even: "slot_count 0 (T * 2) 2 (T * 2) = T"
  by (simp add: slot_count_def)

lemma slot_count_odd: "slot_count (Suc 0) (T * 2) 2 (T * 2) = T"
  by (cases T) (simp_all add: slot_count_def)

lemma flat_interleave_layout:
  assumes "length state = B" and "\<forall>r \<in> set state. length r = T"
    and "length action = B" and "\<forall>r \<in> set action. length r = T"
    and "0 < B" and "0 < T"
  shows "\<exists>E. flat_interleave B T state action = Inr (E, 2 * T) \<and> length E = B \<and>
           (\<forall>b < B. length (E ! b) = 2 * T \<and>
              (\<forall>t < T. E ! b ! (2 * t) = state ! b ! t \<and> E ! b ! (2 * t + 1) = action ! b ! t))"
proof -
  let ?Z = "zeros B (T * 2) :: 'a list list"
  let ?E1 = "map (\<lambda>(v, row). assign_row 0 (T * 2) 2 v row) (zip state ?Z)"
  let ?E2 = "map (\<lambda>(v, row). assign_row (Suc 0) (T * 2) 2 v row) (zip action ?E1)"
  have a1: "assign_slice 0 None 2 state ?Z = Inr ?E1"
    by (rule assign_slice_None[where m = T and n = "T * 2"])
      (use assms in \<open>auto simp: slot_count_even dest: set_zeros\<close>)
  have len1: "\<forall>r \<in> set ?E1. length r = T * 2"
    by (auto dest!: set_zip_rightD set_zeros)
  have a2: "assign_slice (Suc 0) None 2 action ?E1 = Inr ?E2"
    by (rule assign_slice_None[where m = T and n = "T * 2"])
      (use assms len1 in \<open>auto simp: slot_count_odd\<close>)
  have f: "flat_interleave B T state action = Inr (?E2, 2 * T)"
    using assms(5,6) by (simp add: flat_interleave_def Let_def a1 a2)
  have "\<forall>b < B. length (?E2 ! b) = 2 * T \<and>
              (\<forall>t < T. ?E2 ! b ! (2 * t) = state ! b ! t \<and> ?E2 ! b ! (2 * t + 1) = action ! b ! t)"
    using assms by (auto simp: nth_assign_row is_slot_def)
  moreover have "length ?E2 = B" using assms by simp
  ultimately show ?thesis using f by blast
qed

lemma slot_count_block: "lo + S \<le> n \<Longrightarrow> slot_count lo (lo + S) (Suc 0) n = S"
  by (simp add: slot_count_def)

lemma block_bound: "j < T \<Longrightarrow> j * Suc S + S < T * Suc S"
proof -
  assume "j < T"
  then have "Suc j * Suc S \<le> T * Suc S" by (intro mult_le_mono1) simp
  then show ?thesis by simp
qed

lemma block_before: "j' < j \<Longrightarrow> s < S \<Longrightarrow> j' * Suc S + s < j * Suc S"
proof -
  assume "j' < j" "s < S"
  then have "Suc j' * Suc S \<le> j * Suc S" by (intro mult_le_mono1) simp
  then show ?thesis using \<open>s < S\<close> by simp
qed

lemma patch_fold:
  assumes "length state = B"
    and "\<forall>st \<in> set state. length st = T \<and> (\<forall>x \<in> set st. length x = S)"
    and "j \<le> T"
  shows "\<exists>E. fold (\<lambda>j acc. and_then acc
            (assign_slice (j * (1 + S)) (Some (j * (1 + S) + S)) 1 (map (\<lambda>st. st ! j) state)))
          [0..<j] (Inr (zeros B (T + T * S))) = Inr E \<and> length E = B \<and>
          (\<forall>b < B. length (E ! b) = T * Suc S \<and>
             (\<forall>j' < j. \<forall>s < S. E ! b ! (j' * Suc S + s) = state ! b ! j' ! s))"
  using assms(3)
proof (induction j)
  case 0
  show ?case by (simp add: zeros_def)
next
  case (Suc j)
  then obtain E where E: "fold (\<lambda>j acc. and_then acc
            (assign_slice (j * (1 + S)) (Some (j * (1 + S) + S)) 1 (map (\<lambda>st. st ! j) state)))
          [0..<j] (Inr (zeros B (T + T * S))) = Inr E" "length E = B"
      "\<forall>b < B. length (E ! b) = T * Suc S \<and>
             (\<forall>j' < j. \<forall>s < S. E ! b ! (j' * Suc S + s) = state ! b ! j' ! s)"
    by auto
  let ?lo = "j * Suc S"
  let ?vals = "map (\<lambda>st. st ! j) state"
  let ?E' = "map (\<lambda>(v, row). assign_row ?lo (?lo + S) (Suc 0) v row) (zip ?vals E)"
  have jT: "j < T" using Suc.prems by simp
  have rows: "\<forall>r \<in> set E. length r = T * Suc S"
    using E(2,3) by (auto simp: in_set_conv_nth)
  have vals: "\<forall>v \<in> set ?vals. length v = S"
    using assms(2) jT by auto
  have a: "assign_slice ?lo (Some (?lo + S)) (Suc 0) ?vals E = Inr ?E'"
    by (rule assign_slice_Some[where m = S and n = "T * Suc S"])
      (use assms(1) E(2) rows vals block_bound[OF jT, of S] in \<open>auto simp: slot_count_block\<close>)
  have step: "fold (\<lambda>j acc. and_then acc
            (assign_slice (j * (1 + S)) (Some (j * (1 + S) + S)) 1 (map (\<lambda>st. st ! j) state)))
          [0..<Suc j] (Inr (zeros B (T + T * S))) = Inr ?E'"
    using E(1) a by simp
  have "\<forall>b < B. length (?E' ! b) = T * Suc S \<and>
             (\<forall>j' < Suc j. \<forall>s < S. ?E' ! b ! (j' * Suc S + s) = state ! b ! j' ! s)"
  proof (intro allI impI conjI)
    fix b assume b: "b < B"
    show "length (?E' ! b) = T * Suc S" using b E(2,3) assms(1) by simp
    fix j' s assume js: "j' < Suc j" "s < S"
    have inb: "j' * Suc S + s < T * Suc S"
      using block_before[of j' T s S] js jT by simp
    show "?E' ! b ! (j' * Suc S + s) = state ! b ! j' ! s"
    proof (cases "j' = j")
      case True
      then show ?thesis using b E(2,3) assms(1) js inb
        by (simp add: nth_assign_row is_slot_def)
    next
      case False
      then have lt: "j' < j" using js by simp
      then have "j' * Suc S + s < ?lo" using block_before js by simp
      then show ?thesis using b E(2,3) assms(1) lt js inb
        by (simp add: nth_assign_row is_slot_def)
    qed
  qed
  moreover have "length ?E' = B" using E(2) assms(1) by simp
  ultimately show ?case using step by blast
qed

lemma slot_count_action: "slot_count S (T + T * S) (Suc S) (T + T * S) = T"
proof -
  define n where "n = T * Suc S"
  have d: "n div Suc S = T" unfolding n_def by (rule nonzero_mult_div_cancel_right) simp
  have "slot_count S n (Suc S) n = T"
  proof (cases "S < n")
    case True
    then have "n - S + Suc S - 1 = n" by simp
    then show ?thesis using True d by (simp add: slot_count_def)
  next
    case False
    then have "T = 0" unfolding n_def by (cases T) simp_all
    then show ?thesis using False by (simp add: slot_count_def)
  qed
  then show ?thesis by (simp add: n_def)
qed

lemma action_slot: "j < T \<Longrightarrow> is_slot S (T * Suc S) (Suc S) (j * Suc S + S)"
proof -
  assume "j < T"
  then have "j * Suc S + S < T * Suc S" by (rule block_bound)
  moreover have "(j * Suc S + S - S) mod Suc S = 0"
    by (simp del: mult_Suc_right)
  ultimately show ?thesis unfolding is_slot_def by simp
qed

lemma action_slot_index: "(j * Suc S + S - S) div Suc S = j"
  by (simp del: mult_Suc_right)

lemma state_not_slot: "s < S \<Longrightarrow> \<not> is_slot S n (Suc S) (j * Suc S + s)"
proof (cases j)
  case 0
  assume "s < S"
  then show ?thesis using 0 by (simp add: is_slot_def)
next
  case (Suc j')
  assume s: "s < S"
  have "j * Suc S + s - S = j' * Suc S + Suc s" using Suc s by simp
  moreover have "(j' * Suc S + Suc s) mod Suc S = Suc s"
    using s by (simp del: mult_Suc_right)
  ultimately have "(j * Suc S + s - S) mod Suc S \<noteq> 0" by simp
  then show ?thesis unfolding is_slot_def by blast
qed

lemma patch_interleave_layout:
  assumes "length state = B"
    and "\<forall>st \<in> set state. length st = T \<and> (\<forall>x \<in> set st. length x = S)"
    and "length action = B" and "\<forall>r \<in> set action. length r = T"
  shows "\<exists>E. patch_interleave B T S state action = Inr (E, T + T * S) \<and> length E = B \<and>
           (\<forall>b < B. length (E ! b) = T + T * S \<and>
              (\<forall>j < T. (\<forall>s < S. E ! b ! (j * (1 + S) + s) = state ! b ! j ! s) \<and>
                         E ! b ! (j * (1 + S) + S) = action ! b ! j))"
proof -
  from patch_fold[OF assms(1,2) le_refl]
  obtain E where E: "fold (\<lambda>j acc. and_then acc
            (assign_slice (j * (1 + S)) (Some (j * (1 + S) + S)) 1 (map (\<lambda>st. st ! j) state)))
          [0..<T] (Inr (zeros B (T + T * S))) = Inr E" "length E = B"
      "\<forall>b < B. length (E ! b) = T * Suc S \<and>
             (\<forall>j' < T. \<forall>s < S. E ! b ! (j' * Suc S + s) = state ! b ! j' ! s)"
    by blast
  let ?E' = "map (\<lambda>(v, row). assign_row S (T * Suc S) (Suc S) v row) (zip action E)"
  have rows: "\<forall>r \<in> set E. length r = T * Suc S"
    using E(2,3) by (auto simp: in_set_conv_nth)
  have a: "assign_slice S None (Suc S) action E = Inr ?E'"
    by (rule assign_slice_None[where m = T and n = "T * Suc S"])
      (use assms(3,4) E(2) rows in \<open>auto simp: slot_count_action\<close>)
  have p: "patch_interleave B T S state action = Inr (?E', T + T * S)"
    using E(1) a by (simp add: patch_interleave_def Let_def)
  have "\<forall>b < B. length (?E' ! b) = T + T * S \<and>
              (\<forall>j < T. (\<forall>s < S. ?E' ! b ! (j * (1 + S) + s) = state ! b ! j ! s) \<and>
                         ?E' ! b ! (j * (1 + S) + S) = action ! b ! j)"
  proof (intro allI impI conjI)
    fix b assume b: "b < B"
    show "length (?E' ! b) = T + T * S" using b E(2,3) assms(3) by simp
    fix j assume j: "j < T"
    show "?E' ! b ! (j * (1 + S) + S) = action ! b ! j"
      using b j E(2,3) assms(3) block_bound[OF j, of S] action_slot[OF j, of S]
        action_slot_index[of j S]
      by (simp add: nth_assign_row)
    fix s assume s: "s < S"
    have "j * Suc S + s < T * Suc S" using block_bound[OF j, of S] s by simp
    then show "?E' ! b ! (j * (1 + S) + s) = state ! b ! j ! s"
      using b j s E(2,3) assms(3) state_not_slot[OF s, of "T * Suc S" j]
      by (simp add: nth_assign_row)
  qed
  moreover have "length ?E' = B" using E(2) assms(3) by simp
  ultimately show ?thesis using p by blast
qed

section \<open>Properties: the structure of the assembled sequence\<close>

lemma check_eq_Inr [simp]: "check ok e = Inr u \<longleftrightarrow> ok"
  by (simp add: check_def)

lemma check_True [simp]: "check True e = Inr ()"
  by (simp add: check_def)

lemma check_False [simp]: "check False e = Inl e"
  by (simp add: check_def)

lemma require_eq_Inr [simp]: "require v e = Inr x \<longleftrightarrow> v = Some x"
  by (cases v) (simp_all add: require_def)

lemma require_Some [simp]: "require (Some x) e = Inr x"
  by (simp add: require_def)

lemma require_None [simp]: "require None e = Inl e"
  by (simp add: require_def)

lemma collect_nth:
  assumes "collect (map f xs) = Inr ys"
  shows "length ys = length xs" and "\<And>i. i < length xs \<Longrightarrow> f (xs ! i) = Inr (ys ! i)"
proof -
  from assms have eq: "map f xs = map Inr ys" by (simp add: collect_eq_Inr)
  then have "length (map f xs) = length (map Inr ys)" by simp
  then show len: "length ys = length xs" by simp
  fix i assume "i < length xs"
  then have "map f xs ! i = map Inr ys ! i" using eq by simp
  then show "f (xs ! i) = Inr (ys ! i)" using \<open>i < length xs\<close> len by simp
qed

lemma expand_length: "expand n xs = Inr ys \<Longrightarrow> length ys = n"
  by (auto simp: expand_def split: if_splits)

lemma extends_refl [simp]: "extends E E"
  by (simp add: extends_def)

lemma extends_trans: "extends A B \<Longrightarrow> extends B C \<Longrightarrow> extends A C"
proof -
  assume ab: "extends A B" and bc: "extends B C"
  have "\<forall>b < length A. take (length (A ! b)) (C ! b) = A ! b"
  proof (intro allI impI)
    fix b assume b: "b < length A"
    then have 1: "take (length (A ! b)) (B ! b) = A ! b" using ab by (simp add: extends_def)
    have 2: "take (length (B ! b)) (C ! b) = B ! b" using b ab bc by (simp add: extends_def)
    have "length (take (length (A ! b)) (B ! b)) = length (A ! b)" using 1 by simp
    then have le: "length (A ! b) \<le> length (B ! b)" by simp
    have "take (length (A ! b)) (C ! b) = take (length (A ! b)) (take (length (B ! b)) (C ! b))"
      using le by (simp add: min_absorb1)
    then show "take (length (A ! b)) (C ! b) = A ! b" using 1 2 by simp
  qed
  then show ?thesis using ab bc by (simp add: extends_def)
qed

lemma extends_nth:
  assumes "extends E E'" and "b < length E" and "i < length (E ! b)"
  shows "E' ! b ! i = E ! b ! i"
proof -
  have "take (length (E ! b)) (E' ! b) = E ! b" using assms by (simp add: extends_def)
  then have "E ! b ! i = take (length (E ! b)) (E' ! b) ! i" by simp
  then show ?thesis using assms(3) by simp
qed

lemma extends_length_le:
  assumes "extends E E'" and "b < length E"
  shows "length (E ! b) \<le> length (E' ! b)"
proof -
  have "take (length (E ! b)) (E' ! b) = E ! b" using assms by (simp add: extends_def)
  then have "length (take (length (E ! b)) (E' ! b)) = length (E ! b)" by simp
  then show ?thesis by simp
qed

lemma cat1_eq_Inr:
  "cat1 A B = Inr C \<longleftrightarrow> length A = length B \<and> C = map (\<lambda>(a, b). a @ b) (zip A B)"
  by (auto simp: cat1_def)

lemma cat1_extends: "cat1 A B = Inr C \<Longrightarrow> extends A C"
  by (auto simp: cat1_eq_Inr extends_def)

lemma cat1_nth:
  "cat1 A B = Inr C \<Longrightarrow> b < length A \<Longrightarrow> C ! b = A ! b @ B ! b"
  by (auto simp: cat1_eq_Inr)

lemma cat1_length: "cat1 A B = Inr C \<Longrightarrow> length C = length A"
  by (auto simp: cat1_eq_Inr)

lemma assign_slice_lengths:
  assumes "assign_slice start stop step vals E = Inr E'"
  shows "length E' = length E" and "\<And>b. b < length E \<Longrightarrow> length (E' ! b) = length (E ! b)"
proof -
  let ?F = "\<lambda>(v, row).
         let hi = (case stop of None \<Rightarrow> length row | Some s \<Rightarrow> s) in
         and_then (expand (slot_count start hi step (length row)) v) (\<lambda>v'.
           Inr (assign_row start hi step v' row))"
  from assms obtain vs where vs: "expand (length E) vals = Inr vs"
    and c: "collect (map ?F (zip vs E)) = Inr E'"
    by (auto simp: assign_slice_def and_then_eq_Inr)
  have lvs: "length vs = length E" using vs by (rule expand_length)
  show len: "length E' = length E" using collect_nth(1)[OF c] lvs by simp
  fix b assume b: "b < length E"
  then have "?F (zip vs E ! b) = Inr (E' ! b)" using collect_nth(2)[OF c, of b] lvs by simp
  then obtain v' where "assign_row start (case stop of None \<Rightarrow> length (E ! b) | Some s \<Rightarrow> s) step v' (E ! b) = E' ! b"
    using b lvs by (auto simp: Let_def and_then_eq_Inr)
  then have "length (E' ! b) = length (assign_row start (case stop of None \<Rightarrow> length (E ! b) | Some s \<Rightarrow> s) step v' (E ! b))"
    by simp
  then show "length (E' ! b) = length (E ! b)" by simp
qed

lemma flat_interleave_Inr:
  assumes "flat_interleave B T st ac = Inr (E, c)"
  shows "c = T * 2" and "length E = B" and "\<And>b. b < B \<Longrightarrow> length (E ! b) = T * 2"
    and "0 < B" and "0 < T"
proof -
  from assms obtain E1 where e1: "assign_slice 0 None 2 st (zeros B (T * 2)) = Inr E1"
    and e2: "assign_slice 1 None 2 ac E1 = Inr E" and c: "c = T * 2" and pos: "0 < B \<and> 0 < T"
    by (auto simp: flat_interleave_def Let_def and_then_eq_Inr split: if_splits)
  show "0 < B" and "0 < T" using pos by simp_all
  show "c = T * 2" by (rule c)
  have l1: "length E1 = B" using assign_slice_lengths(1)[OF e1] by simp
  show "length E = B" using assign_slice_lengths(1)[OF e2] l1 by simp
  fix b assume b: "b < B"
  have "length (E1 ! b) = T * 2" using assign_slice_lengths(2)[OF e1, of b] b by simp
  then show "length (E ! b) = T * 2" using assign_slice_lengths(2)[OF e2, of b] b l1 by simp
qed

lemma fold_and_then_Inl: "fold (\<lambda>j acc. and_then acc (g j)) js (Inl e) = Inl e"
  by (induction js) simp_all

lemma fold_assign_lengths:
  assumes "fold (\<lambda>j acc. and_then acc (\<lambda>X. assign_slice (lo j) (hi j) step (vals j) X)) js acc = Inr E"
  shows "\<exists>Z. acc = Inr Z \<and> length E = length Z \<and> (\<forall>b < length Z. length (E ! b) = length (Z ! b))"
  using assms
proof (induction js arbitrary: acc)
  case Nil
  then show ?case by simp
next
  case (Cons j js)
  show ?case
  proof (cases acc)
    case (Inl e)
    then show ?thesis using Cons.prems by (simp add: fold_and_then_Inl)
  next
    case (Inr Z)
    from Cons.prems have "fold (\<lambda>j acc. and_then acc (\<lambda>X. assign_slice (lo j) (hi j) step (vals j) X)) js
        (assign_slice (lo j) (hi j) step (vals j) Z) = Inr E"
      using Inr by simp
    from Cons.IH[OF this] obtain Z' where z: "assign_slice (lo j) (hi j) step (vals j) Z = Inr Z'"
      "length E = length Z'" "\<forall>b < length Z'. length (E ! b) = length (Z' ! b)" by blast
    show ?thesis using Inr z assign_slice_lengths[OF z(1)] by auto
  qed
qed

lemma patch_interleave_Inr:
  assumes "patch_interleave B T S st ac = Inr (E, c)"
  shows "c = T + T * S" and "length E = B" and "\<And>b. b < B \<Longrightarrow> length (E ! b) = T + T * S"
proof -
  from assms obtain E1 where e1: "fold (\<lambda>j acc. and_then acc
            (assign_slice (j * (1 + S)) (Some (j * (1 + S) + S)) 1 (map (\<lambda>st. st ! j) st)))
          [0..<T] (Inr (zeros B (T + T * S))) = Inr E1"
    and e2: "assign_slice S None (1 + S) ac E1 = Inr E" and c: "c = T + T * S"
    by (auto simp: patch_interleave_def Let_def and_then_eq_Inr)
  show "c = T + T * S" by (rule c)
  from fold_assign_lengths[of "\<lambda>j. j * (1 + S)" "\<lambda>j. Some (j * (1 + S) + S)" 1
      "\<lambda>j. map (\<lambda>st. st ! j) st", OF e1]
  have l1: "length E1 = B" "\<forall>b < B. length (E1 ! b) = T + T * S" by auto
  show "length E = B" using assign_slice_lengths(1)[OF e2] l1 by simp
  fix b assume b: "b < B"
  show "length (E ! b) = T + T * S" using assign_slice_lengths(2)[OF e2, of b] b l1 by simp
qed

lemma interleave_stage_Inr:
  assumes "interleave_stage cfg fns high low acts = Inr (E, c)"
  shows "c = (if raster_encoder_type_vit cfg
              then dim1 high + dim1 high * vit_sequence_length fns else dim1 high * 2)"
    and "length E = dim0 high"
    and "\<And>b. b < dim0 high \<Longrightarrow> length (E ! b) = c"
proof -
  have "c = (if raster_encoder_type_vit cfg
              then dim1 high + dim1 high * vit_sequence_length fns else dim1 high * 2)
        \<and> length E = dim0 high \<and> (\<forall>b < dim0 high. length (E ! b) = c)"
  proof (cases "raster_encoder_type_vit cfg")
    case True
    with assms obtain st where
      "patch_interleave (dim0 high) (dim1 high) (vit_sequence_length fns) st acts = Inr (E, c)"
      by (auto simp: interleave_stage_def Let_def split: if_splits)
    from patch_interleave_Inr[OF this] True show ?thesis by simp
  next
    case False
    with assms obtain st where
      "flat_interleave (dim0 high) (dim1 high) st acts = Inr (E, c)"
      by (auto simp: interleave_stage_def Let_def split: if_splits)
    from flat_interleave_Inr[OF this] False show ?thesis by simp
  qed
  then show "c = (if raster_encoder_type_vit cfg
              then dim1 high + dim1 high * vit_sequence_length fns else dim1 high * 2)"
    and "length E = dim0 high" and "\<And>b. b < dim0 high \<Longrightarrow> length (E ! b) = c"
    by simp_all
qed

lemma camera_stage_Inr:
  assumes "camera_stage cfg fns cams B (E1, c1) = Inr (E2, c2)"
  shows "c2 = c1 + (if camera_image_encoder_dinov2 cfg then 8 * 257 else 0)"
    and "extends E1 E2"
    and "\<And>b. b < length E1 \<Longrightarrow>
           length (E2 ! b) = length (E1 ! b) + (if camera_image_encoder_dinov2 cfg then 8 * 257 else 0)"
proof -
  have "c2 = c1 + (if camera_image_encoder_dinov2 cfg then 8 * 257 else 0) \<and> extends E1 E2 \<and>
     (\<forall>b < length E1. length (E2 ! b) =
         length (E1 ! b) + (if camera_image_encoder_dinov2 cfg then 8 * 257 else 0))"
  proof (cases "camera_image_encoder_dinov2 cfg")
    case False
    then show ?thesis using assms by (simp add: camera_stage_def)
  next
    case True
    with assms obtain ci where ci: "cams = Some ci" "dim0 ci * dim1 ci = B * 8"
      by (auto simp: camera_stage_def split: option.splits if_splits)
    let ?X = "map (\<lambda>b. map (\<lambda>q. camera_token fns (concat (rows ci) ! (b * 8 + q div 257)) (q mod 257))
                      [0..<8 * 257]) [0..<B]"
    from assms True ci have cat: "cat1 E1 ?X = Inr E2" and c: "c2 = c1 + 8 * 257"
      by (auto simp: camera_stage_def Let_def and_then_eq_Inr)
    have len: "length E1 = B" using cat by (simp add: cat1_eq_Inr)
    have "\<forall>b < length E1. length (E2 ! b) = length (E1 ! b) + 8 * 257"
      using cat1_nth[OF cat] len by simp
    then show ?thesis using True c cat1_extends[OF cat] by simp
  qed
  then show "c2 = c1 + (if camera_image_encoder_dinov2 cfg then 8 * 257 else 0)"
    and "extends E1 E2"
    and "\<And>b. b < length E1 \<Longrightarrow>
           length (E2 ! b) = length (E1 ! b) + (if camera_image_encoder_dinov2 cfg then 8 * 257 else 0)"
    by simp_all
qed

lemma torch_argmin_eq_Inr: "torch_argmin xs = Inr j \<longleftrightarrow> xs \<noteq> [] \<and> j = argmin xs"
  by (auto simp: torch_argmin_def)

lemma get_proposal_cluster_embedding_Inr:
  assumes "get_proposal_cluster_embedding cfg fns info E label = Inr (E', info', ce)"
  shows "\<exists>ds traj_gt cand_xy pairs.
      length (traj_bank fns) = use_proposal cfg \<and>
      info' = info\<lparr>info_candi_proposal_num := Some (use_proposal cfg),
                    info_future_traj_diff := Some ds\<rparr> \<and>
      collect (map (\<lambda>t. collect (map xy t)) (rows label)) = Inr traj_gt \<and>
      collect (map (\<lambda>c. collect (map xy c))
                 (map (take (traj_proposal_points_num cfg)) (traj_bank fns))) = Inr cand_xy \<and>
      broadcast2 (replicate (length E) cand_xy) traj_gt = Inr pairs \<and>
      length pairs = length E \<and> length ds = length E \<and> length E' = length E \<and>
      (\<forall>b < length E.
         future_traj_diff_row (fst (pairs ! b)) (snd (pairs ! b)) = Inr (ds ! b) \<and> ds ! b \<noteq> [] \<and>
         E' ! b = E ! b
            @ map (\<lambda>c. proposal_m_embed fns (concat c))
                (map (take (traj_proposal_points_num cfg)) (traj_bank fns))
            @ [action_m_embed_traj fns (traj_cls_point fns (argmin (ds ! b)))])"
proof -
  let ?cands = "map (take (traj_proposal_points_num cfg)) (traj_bank fns)"
  let ?ce = "map (\<lambda>c. proposal_m_embed fns (concat c)) ?cands"
  from assms have n: "length (traj_bank fns) = use_proposal cfg"
    by (auto simp: get_proposal_cluster_embedding_def Let_def split: if_splits)
  from assms n obtain E1 traj_gt cand_xy pairs ds gt_index where
    e1: "cat1 E (replicate (length E) ?ce) = Inr E1"
    and tg: "collect (map (\<lambda>t. collect (map xy t)) (rows label)) = Inr traj_gt"
    and cx: "collect (map (\<lambda>c. collect (map xy c)) ?cands) = Inr cand_xy"
    and pr: "broadcast2 (replicate (length E) cand_xy) traj_gt = Inr pairs"
    and ds: "collect (map (\<lambda>(cs, gt). future_traj_diff_row cs gt) pairs) = Inr ds"
    and gi: "collect (map torch_argmin ds) = Inr gt_index"
    and e2: "cat1 E1 (map (\<lambda>j. [action_m_embed_traj fns (traj_cls_point fns j)]) gt_index) = Inr E'"
    and inf: "info' = info\<lparr>info_candi_proposal_num := Some (use_proposal cfg),
                    info_future_traj_diff := Some ds\<rparr>"
    by (auto simp: get_proposal_cluster_embedding_def Let_def and_then_eq_Inr split: if_splits)
  have l1: "length E1 = length E" using e1 by (simp add: cat1_eq_Inr)
  have lg: "length gt_index = length E" using e2 l1 by (simp add: cat1_eq_Inr)
  have lds: "length ds = length E" using collect_nth(1)[OF gi] lg by simp
  have lp: "length pairs = length E" using collect_nth(1)[OF ds] lds by simp
  have "\<forall>b < length E.
         future_traj_diff_row (fst (pairs ! b)) (snd (pairs ! b)) = Inr (ds ! b) \<and> ds ! b \<noteq> [] \<and>
         E' ! b = E ! b @ ?ce @ [action_m_embed_traj fns (traj_cls_point fns (argmin (ds ! b)))]"
  proof (intro allI impI)
    fix b assume b: "b < length E"
    have 1: "future_traj_diff_row (fst (pairs ! b)) (snd (pairs ! b)) = Inr (ds ! b)"
      using collect_nth(2)[OF ds, of b] b lp by (simp add: case_prod_beta)
    have 2: "torch_argmin (ds ! b) = Inr (gt_index ! b)"
      using collect_nth(2)[OF gi, of b] b lds by simp
    have 3: "E1 ! b = E ! b @ ?ce" using cat1_nth[OF e1, of b] b by simp
    have 4: "E' ! b = E1 ! b @ [action_m_embed_traj fns (traj_cls_point fns (gt_index ! b))]"
      using cat1_nth[OF e2, of b] b l1 lg by simp
    show "future_traj_diff_row (fst (pairs ! b)) (snd (pairs ! b)) = Inr (ds ! b) \<and> ds ! b \<noteq> [] \<and>
         E' ! b = E ! b @ ?ce @ [action_m_embed_traj fns (traj_cls_point fns (argmin (ds ! b)))]"
      using 1 2 3 4 by (simp add: torch_argmin_eq_Inr)
  qed
  moreover have "length E' = length E" using e2 l1 by (simp add: cat1_eq_Inr)
  ultimately show ?thesis using n inf tg cx pr lp lds by blast
qed

lemma proposal_stage_Inr:
  assumes "proposal_stage cfg fns label (E, info) = Inr (E', info')"
  shows "extends E E'"
    and "info_context_length info' = info_context_length info"
    and "info_pred_length info' = info_pred_length info"
    and "info_trajectory_label info' = info_trajectory_label info"
    and "\<And>b. b < length E \<Longrightarrow> length (E' ! b) =
           length (E ! b) + (if use_proposal cfg = 0 then 0 else use_proposal cfg + 1)"
proof -
  have "extends E E' \<and> info_context_length info' = info_context_length info \<and>
     info_pred_length info' = info_pred_length info \<and>
     info_trajectory_label info' = info_trajectory_label info \<and>
     (\<forall>b < length E. length (E' ! b) =
           length (E ! b) + (if use_proposal cfg = 0 then 0 else use_proposal cfg + 1))"
  proof (cases "use_proposal cfg = 0")
    case True
    then show ?thesis using assms by (simp add: proposal_stage_def)
  next
    case False
    with assms obtain ce where
      g: "get_proposal_cluster_embedding cfg fns info E label = Inr (E', info', ce)"
      by (auto simp: proposal_stage_def and_then_eq_Inr split: if_splits)
    from get_proposal_cluster_embedding_Inr[OF g] obtain ds where
      d: "length (traj_bank fns) = use_proposal cfg"
      "info' = info\<lparr>info_candi_proposal_num := Some (use_proposal cfg),
                    info_future_traj_diff := Some ds\<rparr>"
      "length E' = length E"
      "\<forall>b < length E. E' ! b = E ! b
            @ map (\<lambda>c. proposal_m_embed fns (concat c))
                (map (take (traj_proposal_points_num cfg)) (traj_bank fns))
            @ [action_m_embed_traj fns (traj_cls_point fns (argmin (ds ! b)))]"
      by blast
    have "extends E E'" using d(3,4) by (simp add: extends_def)
    then show ?thesis using d False by simp
  qed
  then show "extends E E'"
    and "info_context_length info' = info_context_length info"
    and "info_pred_length info' = info_pred_length info"
    and "info_trajectory_label info' = info_trajectory_label info"
    and "\<And>b. b < length E \<Longrightarrow> length (E' ! b) =
           length (E ! b) + (if use_proposal cfg = 0 then 0 else use_proposal cfg + 1)"
    by simp_all
qed

lemma key_point_stage_Inr:
  assumes "key_point_stage cfg fns tr (E, info) = Inr (E', info')"
  shows "extends E E'"
    and "info_context_length info' = info_context_length info"
    and "info_pred_length info' = info_pred_length info"
    and "info_trajectory_label info' = info_trajectory_label info"
proof -
  have "extends E E' \<and> info_context_length info' = info_context_length info \<and>
     info_pred_length info' = info_pred_length info \<and>
     info_trajectory_label info' = info_trajectory_label info"
    using assms
    by (auto simp: key_point_stage_def Let_def and_then_eq_Inr cat1_extends split: if_splits)
  then show "extends E E'"
    and "info_context_length info' = info_context_length info"
    and "info_pred_length info' = info_pred_length info"
    and "info_trajectory_label info' = info_trajectory_label info"
    by simp_all
qed

lemma forward_Inr:
  assumes "forward cfg fns kw = Inr (E, info)"
  shows "\<exists>high low ca label E1 c1.
      is_training kw = Some (training cfg) \<and>
      high_res_raster kw = Some high \<and> low_res_raster kw = Some low \<and>
      context_actions kw = Some ca \<and> raster_c kw = raster_channels cfg \<and>
      label = (case trajectory_label kw of Some l \<Rightarrow> l | None \<Rightarrow> default_label (dim0 high)) \<and>
      interleave_stage cfg fns high low
        (map (map (action_m_embed fns))
           (trajectory_linear_augmentation fns (training cfg) (rows ca)
              (x_random_walk cfg) (y_random_walk cfg))) = Inr (E1, c1) \<and>
      extends E1 E \<and> length E = dim0 high \<and>
      info_context_length info = c1 + (if camera_image_encoder_dinov2 cfg then 8 * 257 else 0) \<and>
      info_pred_length info = dim1 label \<and> info_trajectory_label info = label \<and>
      info_selected_indices info = selected_indices cfg \<and>
      (\<forall>b < dim0 high. \<exists>pre. E ! b = pre @ replicate (dim1 label) 0)"
proof -
  from assms obtain tr label ca high low where
    tr: "is_training kw = Some tr" "training cfg = tr"
    and lab: "(case trajectory_label kw of
          Some l \<Rightarrow> Inr l
        | None \<Rightarrow> and_then (require (high_res_raster kw) AttributeError)
                    (\<lambda>h. Inr (default_label (dim0 h)))) = Inr label"
    and ca: "context_actions kw = Some ca" and high: "high_res_raster kw = Some high"
    and low: "low_res_raster kw = Some low" and rc: "raster_c kw = raster_channels cfg"
    by (auto simp: forward_def and_then_eq_Inr)
  have label: "label = (case trajectory_label kw of Some l \<Rightarrow> l | None \<Rightarrow> default_label (dim0 high))"
    using lab high by (auto split: option.splits)
  let ?acts = "map (map (action_m_embed fns))
           (trajectory_linear_augmentation fns (training cfg) (rows ca)
              (x_random_walk cfg) (y_random_walk cfg))"
  let ?info0 = "\<lambda>c. \<lparr>info_trajectory_label = label, info_pred_length = dim1 label,
                 info_context_length = c,
                 info_candi_proposal_num = None, info_future_traj_diff = None,
                 info_future_key_points = None, info_selected_indices = None\<rparr>"
  from assms tr lab ca high low rc obtain E1 c1 E2 c2 E3 info3 E4 info4 where
    s1: "interleave_stage cfg fns high low ?acts = Inr (E1, c1)"
    and s2: "camera_stage cfg fns (camera_images kw) (dim0 high) (E1, c1) = Inr (E2, c2)"
    and s3: "proposal_stage cfg fns label (E2, ?info0 c2) = Inr (E3, info3)"
    and s4: "key_point_stage cfg fns tr (E3, info3) = Inr (E4, info4)"
    and s5: "cat1 E4 (zeros (dim0 high) (dim1 label)) = Inr E"
    and inf: "info = info4\<lparr>info_selected_indices := selected_indices cfg\<rparr>"
    by (auto simp: forward_def and_then_eq_Inr Let_def)
  note i1 = interleave_stage_Inr[OF s1]
  note i2 = camera_stage_Inr[OF s2]
  note i3 = proposal_stage_Inr[OF s3]
  note i4 = key_point_stage_Inr[OF s4]
  have ext: "extends E1 E"
    using i2(2) i3(1) i4(1) cat1_extends[OF s5] by (blast intro: extends_trans)
  have len: "length E = dim0 high" using ext i1(2) by (simp add: extends_def)
  have l4: "length E4 = dim0 high" using s5 by (simp add: cat1_eq_Inr)
  have tail: "\<forall>b < dim0 high. \<exists>pre. E ! b = pre @ replicate (dim1 label) 0"
    using cat1_nth[OF s5] l4 by auto
  have "info_context_length info = c1 + (if camera_image_encoder_dinov2 cfg then 8 * 257 else 0)"
    "info_pred_length info = dim1 label" "info_trajectory_label info = label"
    "info_selected_indices info = selected_indices cfg"
    using inf i2(1) i3(2,3,4) i4(2,3,4) by simp_all
  then show ?thesis using tr ca high low rc label s1 ext len tail by blast
qed

lemma interleave_stage_flat:
  assumes "\<not> raster_encoder_type_vit cfg"
    and "dim0 low * dim1 low = dim0 high * dim1 high"
    and "length acts = dim0 high" and "\<forall>r \<in> set acts. length r = dim1 high"
    and "0 < dim0 high" and "0 < dim1 high"
  shows "\<exists>E. interleave_stage cfg fns high low acts = Inr (E, 2 * dim1 high) \<and>
           length E = dim0 high \<and>
           (\<forall>b < dim0 high. length (E ! b) = 2 * dim1 high \<and>
              (\<forall>t < dim1 high.
                 E ! b ! (2 * t) =
                   cat_halves fns (cnn_downsample fns (concat (rows high)) (b * dim1 high + t))
                                  (cnn_downsample fns (concat (rows low)) (b * dim1 high + t)) \<and>
                 E ! b ! (2 * t + 1) = acts ! b ! t))"
proof -
  let ?st = "map (\<lambda>b. map (\<lambda>t.
                 cat_halves fns (cnn_downsample fns (concat (rows high)) (b * dim1 high + t))
                                (cnn_downsample fns (concat (rows low)) (b * dim1 high + t)))
               [0..<dim1 high]) [0..<dim0 high]"
  have "length ?st = dim0 high" "\<forall>r \<in> set ?st. length r = dim1 high" by auto
  from flat_interleave_layout[OF this assms(3,4,5,6)]
  obtain E where E: "flat_interleave (dim0 high) (dim1 high) ?st acts = Inr (E, 2 * dim1 high)"
    "length E = dim0 high"
    "\<forall>b < dim0 high. length (E ! b) = 2 * dim1 high \<and>
              (\<forall>t < dim1 high. E ! b ! (2 * t) = ?st ! b ! t \<and> E ! b ! (2 * t + 1) = acts ! b ! t)"
    by blast
  have "interleave_stage cfg fns high low acts = Inr (E, 2 * dim1 high)"
    using assms(1,2) E(1) by (simp add: interleave_stage_def Let_def)
  moreover have "\<forall>b < dim0 high. length (E ! b) = 2 * dim1 high \<and>
              (\<forall>t < dim1 high.
                 E ! b ! (2 * t) =
                   cat_halves fns (cnn_downsample fns (concat (rows high)) (b * dim1 high + t))
                                  (cnn_downsample fns (concat (rows low)) (b * dim1 high + t)) \<and>
                 E ! b ! (2 * t + 1) = acts ! b ! t)"
    using E(3) by simp
  ultimately show ?thesis using E(2) by blast
qed

lemma interleave_stage_patch:
  assumes "raster_encoder_type_vit cfg"
    and "dim0 low * dim1 low = dim0 high * dim1 high"
    and "length acts = dim0 high" and "\<forall>r \<in> set acts. length r = dim1 high"
  shows "\<exists>E. interleave_stage cfg fns high low acts
               = Inr (E, dim1 high + dim1 high * vit_sequence_length fns) \<and>
           length E = dim0 high \<and>
           (\<forall>b < dim0 high. length (E ! b) = dim1 high + dim1 high * vit_sequence_length fns \<and>
              (\<forall>j < dim1 high.
                 (\<forall>s < vit_sequence_length fns.
                    E ! b ! (j * (1 + vit_sequence_length fns) + s) =
                      cat_halves fns
                        (image_downsample fns (concat (rows high)) (b * dim1 high + j) s)
                        (image_downsample fns (concat (rows low)) (b * dim1 high + j) s)) \<and>
                 E ! b ! (j * (1 + vit_sequence_length fns) + vit_sequence_length fns)
                   = acts ! b ! j))"
proof -
  let ?S = "vit_sequence_length fns"
  let ?st = "map (\<lambda>b. map (\<lambda>t. map (\<lambda>s.
                 cat_halves fns (image_downsample fns (concat (rows high)) (b * dim1 high + t) s)
                                (image_downsample fns (concat (rows low)) (b * dim1 high + t) s))
               [0..<?S]) [0..<dim1 high]) [0..<dim0 high]"
  have "length ?st = dim0 high"
    "\<forall>st \<in> set ?st. length st = dim1 high \<and> (\<forall>x \<in> set st. length x = ?S)" by auto
  from patch_interleave_layout[OF this assms(3,4)]
  obtain E where E: "patch_interleave (dim0 high) (dim1 high) ?S ?st acts
       = Inr (E, dim1 high + dim1 high * ?S)"
    "length E = dim0 high"
    "\<forall>b < dim0 high. length (E ! b) = dim1 high + dim1 high * ?S \<and>
              (\<forall>j < dim1 high. (\<forall>s < ?S. E ! b ! (j * (1 + ?S) + s) = ?st ! b ! j ! s) \<and>
                         E ! b ! (j * (1 + ?S) + ?S) = acts ! b ! j)"
    by blast
  have "interleave_stage cfg fns high low acts = Inr (E, dim1 high + dim1 high * ?S)"
    using assms(1,2) E(1) by (simp add: interleave_stage_def Let_def)
  moreover have "\<forall>b < dim0 high. length (E ! b) = dim1 high + dim1 high * ?S \<and>
              (\<forall>j < dim1 high.
                 (\<forall>s < ?S.
                    E ! b ! (j * (1 + ?S) + s) =
                      cat_halves fns
                        (image_downsample fns (concat (rows high)) (b * dim1 high + j) s)
                        (image_downsample fns (concat (rows low)) (b * dim1 high + j) s)) \<and>
                 E ! b ! (j * (1 + ?S) + ?S) = acts ! b ! j)"
    using E(3) by simp
  ultimately show ?thesis using E(2) by blast
qed

lemma forward_total:
  assumes "is_training kw = Some (training cfg)"
    and "high_res_raster kw = Some high" and "low_res_raster kw = Some low"
    and "context_actions kw = Some ca" and "raster_c kw = raster_channels cfg"
    and "dim0 low * dim1 low = dim0 high * dim1 high"
    and "length (trajectory_linear_augmentation fns (training cfg) (rows ca)
                   (x_random_walk cfg) (y_random_walk cfg)) = dim0 high"
    and "\<forall>r \<in> set (trajectory_linear_augmentation fns (training cfg) (rows ca)
                   (x_random_walk cfg) (y_random_walk cfg)). length r = dim1 high"
    and "camera_image_encoder_dinov2 cfg \<longrightarrow>
           (\<exists>ci. camera_images kw = Some ci \<and> dim0 ci * dim1 ci = dim0 high * 8)"
    and "use_proposal cfg = 0" and "use_key_points cfg = No"
    and "raster_encoder_type_vit cfg \<or> (0 < dim0 high \<and> 0 < dim1 high)"
  shows "\<exists>E info. forward cfg fns kw = Inr (E, info)"
proof -
  let ?acts = "map (map (action_m_embed fns))
     (trajectory_linear_augmentation fns (training cfg) (rows ca)
        (x_random_walk cfg) (y_random_walk cfg))"
  have sh: "length ?acts = dim0 high" "\<forall>r \<in> set ?acts. length r = dim1 high"
    using assms(7,8) by auto
  have "\<exists>E1 c1. interleave_stage cfg fns high low ?acts = Inr (E1, c1) \<and> length E1 = dim0 high"
  proof (cases "raster_encoder_type_vit cfg")
    case True
    from interleave_stage_patch[OF True assms(6) sh, of fns] show ?thesis by blast
  next
    case False
    then have pos: "0 < dim0 high" "0 < dim1 high" using assms(12) by simp_all
    from interleave_stage_flat[OF False assms(6) sh pos, of fns] show ?thesis by blast
  qed
  then obtain E1 c1 where s1: "interleave_stage cfg fns high low ?acts = Inr (E1, c1)"
    and l1: "length E1 = dim0 high"
    by blast
  obtain E2 c2 where s2: "camera_stage cfg fns (camera_images kw) (dim0 high) (E1, c1) = Inr (E2, c2)"
    using assms(9) l1 by (cases "camera_image_encoder_dinov2 cfg")
      (auto simp: camera_stage_def Let_def cat1_def)
  have l2: "length E2 = dim0 high" using camera_stage_Inr(2)[OF s2] l1 by (simp add: extends_def)
  show ?thesis
    using assms(1-5,10,11) s1 s2 l2
    by (cases "trajectory_label kw")
      (simp_all add: forward_def Let_def proposal_stage_def key_point_stage_def cat1_def)
qed

section \<open>The interleaved layouts in the encoder's output\<close>

lemma interleave_stage_dims:
  "interleave_stage cfg fns high low acts = Inr st \<Longrightarrow> dim0 low * dim1 low = dim0 high * dim1 high"
  by (auto simp: interleave_stage_def Let_def split: if_splits)

lemma interleave_stage_frames:
  "interleave_stage cfg fns high low acts = Inr st \<Longrightarrow> \<not> raster_encoder_type_vit cfg \<Longrightarrow>
     0 < dim0 high \<and> 0 < dim1 high"
  by (auto simp: interleave_stage_def flat_interleave_def Let_def split: if_splits)

text \<open>
  C2 (amended). In the flat (ResNet) layout with \<open>T\<close> context timesteps the sequence that
  \<^verbatim>\<open>forward\<close> returns begins, in every batch row, with an interleaved block of length
  \<open>2 * T\<close>: index \<open>2 * t\<close> holds the state embedding of timestep \<open>t\<close> (the concatenated
  high- and low-resolution raster embeddings) and index \<open>2 * t + 1\<close> the action embedding
  of timestep \<open>t\<close>. The reported \<^verbatim>\<open>context_length\<close> is \<open>2 * T\<close> when no camera-image encoder
  is configured and \<open>2 * T + 8 * 257\<close> with one, for every \<open>T \<ge> 1\<close>.
\<close>

theorem flat_interleave_forward:
  assumes "forward cfg fns kw = Inr (E, info)"
    and "\<not> raster_encoder_type_vit cfg"
    and "high_res_raster kw = Some high" and "low_res_raster kw = Some low"
    and "context_actions kw = Some ca"
    and "acts = trajectory_linear_augmentation fns (training cfg) (rows ca)
                  (x_random_walk cfg) (y_random_walk cfg)"
    and "length acts = dim0 high" and "\<forall>r \<in> set acts. length r = dim1 high"
    and "1 \<le> dim1 high"
  shows "length E = dim0 high \<and>
         (\<forall>b < dim0 high. 2 * dim1 high \<le> length (E ! b) \<and>
            (\<forall>t < dim1 high.
               E ! b ! (2 * t) =
                 cat_halves fns (cnn_downsample fns (concat (rows high)) (b * dim1 high + t))
                                (cnn_downsample fns (concat (rows low)) (b * dim1 high + t)) \<and>
               E ! b ! (2 * t + 1) = action_m_embed fns (acts ! b ! t))) \<and>
         info_context_length info =
           2 * dim1 high + (if camera_image_encoder_dinov2 cfg then 8 * 257 else 0)"
proof -
  let ?acts = "map (map (action_m_embed fns)) acts"
  from forward_Inr[OF assms(1)] assms(3,4,5,6) obtain E1 c1 where
    s1: "interleave_stage cfg fns high low ?acts = Inr (E1, c1)"
    and ext: "extends E1 E" and len: "length E = dim0 high"
    and cl: "info_context_length info = c1 + (if camera_image_encoder_dinov2 cfg then 8 * 257 else 0)"
    by auto
  have sh: "length ?acts = dim0 high" "\<forall>r \<in> set ?acts. length r = dim1 high"
    using assms(7,8) by auto
  have pos: "0 < dim0 high" "0 < dim1 high"
    using interleave_stage_frames[OF s1 assms(2)] by simp_all
  from interleave_stage_flat[OF assms(2) interleave_stage_dims[OF s1] sh pos, of fns] s1
  have c1: "c1 = 2 * dim1 high" and l1: "length E1 = dim0 high"
    and lay: "\<forall>b < dim0 high. length (E1 ! b) = 2 * dim1 high \<and>
              (\<forall>t < dim1 high.
                 E1 ! b ! (2 * t) =
                   cat_halves fns (cnn_downsample fns (concat (rows high)) (b * dim1 high + t))
                                  (cnn_downsample fns (concat (rows low)) (b * dim1 high + t)) \<and>
                 E1 ! b ! (2 * t + 1) = ?acts ! b ! t)"
    by auto
  have "\<forall>b < dim0 high. 2 * dim1 high \<le> length (E ! b) \<and>
            (\<forall>t < dim1 high.
               E ! b ! (2 * t) =
                 cat_halves fns (cnn_downsample fns (concat (rows high)) (b * dim1 high + t))
                                (cnn_downsample fns (concat (rows low)) (b * dim1 high + t)) \<and>
               E ! b ! (2 * t + 1) = action_m_embed fns (acts ! b ! t))"
  proof (intro allI impI conjI)
    fix b assume b: "b < dim0 high"
    then have b1: "b < length E1" using l1 by simp
    have lb: "length (E1 ! b) = 2 * dim1 high" using lay b by simp
    show "2 * dim1 high \<le> length (E ! b)" using extends_length_le[OF ext b1] lb by simp
    fix t assume t: "t < dim1 high"
    have "E ! b ! (2 * t) = E1 ! b ! (2 * t)"
      by (rule extends_nth[OF ext b1]) (use lb t in simp)
    then show "E ! b ! (2 * t) =
                 cat_halves fns (cnn_downsample fns (concat (rows high)) (b * dim1 high + t))
                                (cnn_downsample fns (concat (rows low)) (b * dim1 high + t))"
      using lay b t by simp
    have "E ! b ! (2 * t + 1) = E1 ! b ! (2 * t + 1)"
      by (rule extends_nth[OF ext b1]) (use lb t in simp)
    moreover have "acts ! b \<in> set acts" using b assms(7) by simp
    ultimately show "E ! b ! (2 * t + 1) = action_m_embed fns (acts ! b ! t)"
      using lay b t assms(7,8) by simp
  qed
  then show ?thesis using len cl c1 by simp
qed

lemmas fixture_defs = cfg0_def fns0_def kw0_def kw_cam_def kw1_def cfg_kp_def kw3_def m0_def
  cfg_idm_def m_idm_def kw_gen_def cfg_k2_def m_k2_def fns_bank_def kw_gt_def rows_def

theorem flat_interleave_forward_witness:
  "\<exists>E info. forward cfg0 fns0 kw0 = Inr (E, info) \<and> length E = 1 \<and>
     E ! 0 ! 0 = 607 \<and> E ! 0 ! 1 = 4 \<and> info_context_length info = 2"
proof -
  let ?high = "\<lparr>dim0 = 1, dim1 = 1, elem = (\<lambda>b t. 5)\<rparr> :: nat tensor2"
  let ?low = "\<lparr>dim0 = 1, dim1 = 1, elem = (\<lambda>b t. 6)\<rparr> :: nat tensor2"
  let ?ca = "\<lparr>dim0 = 1, dim1 = 1, elem = (\<lambda>b t. [1, 2, 0, 0])\<rparr> :: real list tensor2"
  have "\<exists>E info. forward cfg0 fns0 kw0 = Inr (E, info)"
    by (rule forward_total[where high = ?high and low = ?low and ca = ?ca])
      (simp_all add: fixture_defs)
  then obtain E info where f: "forward cfg0 fns0 kw0 = Inr (E, info)" by blast
  have t: "length E = dim0 ?high \<and>
         (\<forall>b < dim0 ?high. 2 * dim1 ?high \<le> length (E ! b) \<and>
            (\<forall>t < dim1 ?high.
               E ! b ! (2 * t) =
                 cat_halves fns0 (cnn_downsample fns0 (concat (rows ?high)) (b * dim1 ?high + t))
                                (cnn_downsample fns0 (concat (rows ?low)) (b * dim1 ?high + t)) \<and>
               E ! b ! (2 * t + 1) = action_m_embed fns0 ([[[1, 2, 0, 0]]] ! b ! t))) \<and>
         info_context_length info =
           2 * dim1 ?high + (if camera_image_encoder_dinov2 cfg0 then 8 * 257 else 0)"
    by (rule flat_interleave_forward[OF f, where ca = ?ca]) (simp_all add: fixture_defs)
  then have "length E = 1" "E ! 0 ! 0 = 607" "E ! 0 ! 1 = 4" "info_context_length info = 2"
    by (simp_all add: fixture_defs)
  with f show ?thesis by blast
qed

lemma forward_context_length:
  assumes "forward cfg fns kw = Inr (E, info)" and "high_res_raster kw = Some high"
  shows "info_context_length info =
           (if raster_encoder_type_vit cfg
            then dim1 high + dim1 high * vit_sequence_length fns else dim1 high * 2)
           + (if camera_image_encoder_dinov2 cfg then 8 * 257 else 0)"
proof -
  from forward_Inr[OF assms(1)] assms(2) obtain low acts E1 c1 where
    s1: "interleave_stage cfg fns high low acts = Inr (E1, c1)"
    and cl: "info_context_length info = c1 + (if camera_image_encoder_dinov2 cfg then 8 * 257 else 0)"
    by auto
  show ?thesis using interleave_stage_Inr(1)[OF s1] cl by simp
qed

text \<open>With the camera-image encoder and one context timestep the reported context length
  is 2058, not 2.\<close>

theorem flat_context_length_counterexample:
  "\<not> isl (forward (cfg0\<lparr>camera_image_encoder_dinov2 := True\<rparr>) fns0
            kw_cam)
   \<and> info_context_length (snd (projr
        (forward (cfg0\<lparr>camera_image_encoder_dinov2 := True\<rparr>) fns0
            kw_cam))) = 2058
   \<and> dim1 (the (high_res_raster kw0)) = 1"
proof -
  let ?cfg = "cfg0\<lparr>camera_image_encoder_dinov2 := True\<rparr>"
  let ?kw = "kw_cam"
  let ?high = "\<lparr>dim0 = 1, dim1 = 1, elem = (\<lambda>b t. 5)\<rparr> :: nat tensor2"
  let ?low = "\<lparr>dim0 = 1, dim1 = 1, elem = (\<lambda>b t. 6)\<rparr> :: nat tensor2"
  let ?ca = "\<lparr>dim0 = 1, dim1 = 1, elem = (\<lambda>b t. [1, 2, 0, 0])\<rparr> :: real list tensor2"
  have "\<exists>E info. forward ?cfg fns0 ?kw = Inr (E, info)"
    by (rule forward_total[where high = ?high and low = ?low and ca = ?ca])
      (simp_all add: fixture_defs)
  then obtain E info where f: "forward ?cfg fns0 ?kw = Inr (E, info)" by blast
  have "info_context_length info = 2058"
    using forward_context_length[OF f, of ?high] by (simp add: fixture_defs)
  then show ?thesis using f by (simp add: kw0_def)
qed

text \<open>
  C3 (amended). In the patch (ViT) layout with \<open>T\<close> context timesteps and \<open>S\<close> sub-tokens per
  timestep the returned sequence holds, in every batch row and for every \<open>j < T\<close>, the \<open>S\<close>
  sub-tokens of the \<open>j\<close>-th state embedding at the indices \<open>j * (1 + S) + s\<close>, \<open>s < S\<close>, and
  the \<open>j\<close>-th action embedding at index \<open>j * (1 + S) + S\<close>. The reported \<^verbatim>\<open>context_length\<close>
  is \<open>T + T * S\<close> when no camera-image encoder is configured and \<open>T + T * S + 8 * 257\<close> with
  one.
\<close>

theorem patch_interleave_forward:
  assumes "forward cfg fns kw = Inr (E, info)"
    and "raster_encoder_type_vit cfg"
    and "high_res_raster kw = Some high" and "low_res_raster kw = Some low"
    and "context_actions kw = Some ca"
    and "acts = trajectory_linear_augmentation fns (training cfg) (rows ca)
                  (x_random_walk cfg) (y_random_walk cfg)"
    and "length acts = dim0 high" and "\<forall>r \<in> set acts. length r = dim1 high"
    and "S = vit_sequence_length fns" and "T = dim1 high"
  shows "length E = dim0 high \<and>
         (\<forall>b < dim0 high. T + T * S \<le> length (E ! b) \<and>
            (\<forall>j < T.
               (\<forall>s < S. E ! b ! (j * (1 + S) + s) =
                  cat_halves fns (image_downsample fns (concat (rows high)) (b * T + j) s)
                                 (image_downsample fns (concat (rows low)) (b * T + j) s)) \<and>
               E ! b ! (j * (1 + S) + S) = action_m_embed fns (acts ! b ! j))) \<and>
         info_context_length info =
           T + T * S + (if camera_image_encoder_dinov2 cfg then 8 * 257 else 0)"
proof -
  let ?acts = "map (map (action_m_embed fns)) acts"
  from forward_Inr[OF assms(1)] assms(3,4,5,6) obtain E1 c1 where
    s1: "interleave_stage cfg fns high low ?acts = Inr (E1, c1)"
    and ext: "extends E1 E" and len: "length E = dim0 high"
    and cl: "info_context_length info = c1 + (if camera_image_encoder_dinov2 cfg then 8 * 257 else 0)"
    by auto
  have sh: "length ?acts = dim0 high" "\<forall>r \<in> set ?acts. length r = dim1 high"
    using assms(7,8) by auto
  from interleave_stage_patch[OF assms(2) interleave_stage_dims[OF s1] sh, of fns] s1 assms(9,10)
  have c1: "c1 = T + T * S" and l1: "length E1 = dim0 high"
    and lay: "\<forall>b < dim0 high. length (E1 ! b) = T + T * S \<and>
              (\<forall>j < T.
                 (\<forall>s < S. E1 ! b ! (j * (1 + S) + s) =
                      cat_halves fns (image_downsample fns (concat (rows high)) (b * T + j) s)
                        (image_downsample fns (concat (rows low)) (b * T + j) s)) \<and>
                 E1 ! b ! (j * (1 + S) + S) = ?acts ! b ! j)"
    by auto
  have "\<forall>b < dim0 high. T + T * S \<le> length (E ! b) \<and>
            (\<forall>j < T.
               (\<forall>s < S. E ! b ! (j * (1 + S) + s) =
                  cat_halves fns (image_downsample fns (concat (rows high)) (b * T + j) s)
                                 (image_downsample fns (concat (rows low)) (b * T + j) s)) \<and>
               E ! b ! (j * (1 + S) + S) = action_m_embed fns (acts ! b ! j))"
  proof (intro allI impI conjI)
    fix b assume b: "b < dim0 high"
    then have b1: "b < length E1" using l1 by simp
    have lb: "length (E1 ! b) = T + T * S" using lay b by simp
    show "T + T * S \<le> length (E ! b)" using extends_length_le[OF ext b1] lb by simp
    fix j assume j: "j < T"
    have bound: "j * Suc S + S < T * Suc S" by (rule block_bound[OF j])
    have "E ! b ! (j * (1 + S) + S) = E1 ! b ! (j * (1 + S) + S)"
      by (rule extends_nth[OF ext b1]) (use lb bound in simp)
    then show "E ! b ! (j * (1 + S) + S) = action_m_embed fns (acts ! b ! j)"
      using lay b j assms(7,8,10) by simp
    fix s assume s: "s < S"
    have "E ! b ! (j * (1 + S) + s) = E1 ! b ! (j * (1 + S) + s)"
      by (rule extends_nth[OF ext b1]) (use lb bound s in simp)
    then show "E ! b ! (j * (1 + S) + s) =
                  cat_halves fns (image_downsample fns (concat (rows high)) (b * T + j) s)
                                 (image_downsample fns (concat (rows low)) (b * T + j) s)"
      using lay b j s by simp
  qed
  then show ?thesis using len cl c1 by simp
qed

theorem patch_interleave_forward_witness:
  "\<exists>E info. forward (cfg0\<lparr>raster_encoder_type_vit := True\<rparr>) fns0 kw0 = Inr (E, info) \<and>
     length E = 1 \<and> E ! 0 ! 0 = 5060 \<and> E ! 0 ! 1 = 5161 \<and> E ! 0 ! 2 = 4 \<and>
     info_context_length info = 3"
proof -
  let ?cfg = "cfg0\<lparr>raster_encoder_type_vit := True\<rparr>"
  let ?high = "\<lparr>dim0 = 1, dim1 = 1, elem = (\<lambda>b t. 5)\<rparr> :: nat tensor2"
  let ?low = "\<lparr>dim0 = 1, dim1 = 1, elem = (\<lambda>b t. 6)\<rparr> :: nat tensor2"
  let ?ca = "\<lparr>dim0 = 1, dim1 = 1, elem = (\<lambda>b t. [1, 2, 0, 0])\<rparr> :: real list tensor2"
  have "\<exists>E info. forward ?cfg fns0 kw0 = Inr (E, info)"
    by (rule forward_total[where high = ?high and low = ?low and ca = ?ca])
      (simp_all add: fixture_defs)
  then obtain E info where f: "forward ?cfg fns0 kw0 = Inr (E, info)" by blast
  have t: "length E = dim0 ?high \<and>
         (\<forall>b < dim0 ?high. 1 + 1 * 2 \<le> length (E ! b) \<and>
            (\<forall>j < 1.
               (\<forall>s < 2. E ! b ! (j * (1 + 2) + s) =
                  cat_halves fns0 (image_downsample fns0 (concat (rows ?high)) (b * 1 + j) s)
                                 (image_downsample fns0 (concat (rows ?low)) (b * 1 + j) s)) \<and>
               E ! b ! (j * (1 + 2) + 2) = action_m_embed fns0 ([[[1, 2, 0, 0]]] ! b ! j))) \<and>
         info_context_length info =
           1 + 1 * 2 + (if camera_image_encoder_dinov2 ?cfg then 8 * 257 else 0)"
    by (rule patch_interleave_forward[OF f, where ca = ?ca]) (simp_all add: fixture_defs)
  then have a: "length E = 1" "info_context_length info = 3" "E ! 0 ! Suc (Suc 0) = 4"
    and st: "\<forall>s<2. E ! 0 ! s = 5060 + 101 * real s"
    by (simp_all add: fixture_defs)
  have "E ! 0 ! 0 = 5060 + 101 * real (0::nat)" using st by simp
  moreover have "E ! 0 ! 1 = 5060 + 101 * real (1::nat)" using st by simp
  moreover have "E ! 0 ! 2 = 4" using a(3) by (simp add: numeral_2_eq_2)
  ultimately have "E ! 0 ! 0 = 5060" "E ! 0 ! 1 = 5161" "E ! 0 ! 2 = 4" by simp_all
  with a f show ?thesis by blast
qed

text \<open>With the camera-image encoder, one context timestep and two sub-tokens the reported
  context length is 2059, not 3.\<close>

theorem patch_context_length_counterexample:
  "\<not> isl (forward (cfg0\<lparr>raster_encoder_type_vit := True, camera_image_encoder_dinov2 := True\<rparr>) fns0
            kw_cam)
   \<and> info_context_length (snd (projr
        (forward (cfg0\<lparr>raster_encoder_type_vit := True, camera_image_encoder_dinov2 := True\<rparr>) fns0
            kw_cam))) = 2059
   \<and> dim1 (the (high_res_raster kw0)) = 1 \<and> vit_sequence_length fns0 = 2"
proof -
  let ?cfg = "cfg0\<lparr>raster_encoder_type_vit := True, camera_image_encoder_dinov2 := True\<rparr>"
  let ?kw = "kw_cam"
  let ?high = "\<lparr>dim0 = 1, dim1 = 1, elem = (\<lambda>b t. 5)\<rparr> :: nat tensor2"
  let ?low = "\<lparr>dim0 = 1, dim1 = 1, elem = (\<lambda>b t. 6)\<rparr> :: nat tensor2"
  let ?ca = "\<lparr>dim0 = 1, dim1 = 1, elem = (\<lambda>b t. [1, 2, 0, 0])\<rparr> :: real list tensor2"
  have "\<exists>E info. forward ?cfg fns0 ?kw = Inr (E, info)"
    by (rule forward_total[where high = ?high and low = ?low and ca = ?ca])
      (simp_all add: fixture_defs)
  then obtain E info where f: "forward ?cfg fns0 ?kw = Inr (E, info)" by blast
  have "info_context_length info = 2059"
    using forward_context_length[OF f, of ?high] by (simp add: fixture_defs)
  then show ?thesis using f by (simp add: kw0_def fns0_def)
qed

section \<open>The default trajectory label\<close>

text \<open>
  C10. When \<^verbatim>\<open>forward\<close> is called without a trajectory label it behaves exactly as when called
  with the all-zeros label of shape (batch size, 80, 4), the batch size taken from the
  raster: the missing label is no failure of its own. Whenever the call returns,
  \<^verbatim>\<open>pred_length\<close> is 80, the label in the dictionary is that zero tensor, and every row of
  the sequence ends with 80 zero placeholders. It does return for well-shaped inputs (shown
  here for the configurations without proposals and key points; the flat layout needs at
  least one frame, since its reshape raises on an empty tensor).
\<close>

theorem forward_without_label:
  assumes "high_res_raster kw = Some high"
  shows "forward cfg fns (kw\<lparr>trajectory_label := None\<rparr>)
           = forward cfg fns (kw\<lparr>trajectory_label := Some (default_label (dim0 high))\<rparr>)
       \<and> dim0 (default_label (dim0 high)) = dim0 high \<and> dim1 (default_label (dim0 high)) = 80
       \<and> (\<forall>b t. elem (default_label (dim0 high)) b t = [0, 0, 0, 0])
       \<and> (\<forall>E info. forward cfg fns (kw\<lparr>trajectory_label := None\<rparr>) = Inr (E, info) \<longrightarrow>
             info_pred_length info = 80 \<and>
             info_trajectory_label info = default_label (dim0 high) \<and>
             length E = dim0 high \<and>
             (\<forall>b < dim0 high. \<exists>pre. E ! b = pre @ replicate 80 0))
       \<and> (is_training kw = Some (training cfg) \<and> low_res_raster kw = Some low \<and>
            context_actions kw = Some ca \<and> raster_c kw = raster_channels cfg \<and>
            dim0 low * dim1 low = dim0 high * dim1 high \<and>
            length (trajectory_linear_augmentation fns (training cfg) (rows ca)
                      (x_random_walk cfg) (y_random_walk cfg)) = dim0 high \<and>
            (\<forall>r \<in> set (trajectory_linear_augmentation fns (training cfg) (rows ca)
                      (x_random_walk cfg) (y_random_walk cfg)). length r = dim1 high) \<and>
            (camera_image_encoder_dinov2 cfg \<longrightarrow>
               (\<exists>ci. camera_images kw = Some ci \<and> dim0 ci * dim1 ci = dim0 high * 8)) \<and>
            use_proposal cfg = 0 \<and> use_key_points cfg = No \<and>
            (raster_encoder_type_vit cfg \<or> (1 \<le> dim0 high \<and> 1 \<le> dim1 high))
            \<longrightarrow> (\<exists>E info. forward cfg fns (kw\<lparr>trajectory_label := None\<rparr>) = Inr (E, info)))"
proof (intro conjI allI impI)
  show "forward cfg fns (kw\<lparr>trajectory_label := None\<rparr>)
           = forward cfg fns (kw\<lparr>trajectory_label := Some (default_label (dim0 high))\<rparr>)"
    using assms by (simp add: forward_def)
  show "dim0 (default_label (dim0 high)) = dim0 high" "dim1 (default_label (dim0 high)) = 80"
    by (simp_all add: default_label_def)
  show "\<And>b t. elem (default_label (dim0 high)) b t = [0, 0, 0, 0]"
    by (simp add: default_label_def eval_nat_numeral)
next
  fix E info assume f: "forward cfg fns (kw\<lparr>trajectory_label := None\<rparr>) = Inr (E, info)"
  from forward_Inr[OF f] assms
  have a: "length E = dim0 high" "info_pred_length info = dim1 (default_label (dim0 high))"
    "info_trajectory_label info = default_label (dim0 high)"
    "\<forall>b < dim0 high. \<exists>pre. E ! b = pre @ replicate (dim1 (default_label (dim0 high))) 0"
    by auto
  show "info_pred_length info = 80" using a(2) by (simp add: default_label_def)
  show "info_trajectory_label info = default_label (dim0 high)" by (rule a(3))
  show "length E = dim0 high" by (rule a(1))
  fix b assume "b < dim0 high"
  then show "\<exists>pre. E ! b = pre @ replicate 80 0" using a(4) by (simp add: default_label_def)
next
  assume h: "is_training kw = Some (training cfg) \<and> low_res_raster kw = Some low \<and>
            context_actions kw = Some ca \<and> raster_c kw = raster_channels cfg \<and>
            dim0 low * dim1 low = dim0 high * dim1 high \<and>
            length (trajectory_linear_augmentation fns (training cfg) (rows ca)
                      (x_random_walk cfg) (y_random_walk cfg)) = dim0 high \<and>
            (\<forall>r \<in> set (trajectory_linear_augmentation fns (training cfg) (rows ca)
                      (x_random_walk cfg) (y_random_walk cfg)). length r = dim1 high) \<and>
            (camera_image_encoder_dinov2 cfg \<longrightarrow>
               (\<exists>ci. camera_images kw = Some ci \<and> dim0 ci * dim1 ci = dim0 high * 8)) \<and>
            use_proposal cfg = 0 \<and> use_key_points cfg = No \<and>
            (raster_encoder_type_vit cfg \<or> (1 \<le> dim0 high \<and> 1 \<le> dim1 high))"
  show "\<exists>E info. forward cfg fns (kw\<lparr>trajectory_label := None\<rparr>) = Inr (E, info)"
    by (rule forward_total[where high = high and low = low and ca = ca])
      (use h assms in \<open>simp_all add: Suc_le_eq\<close>)
qed

theorem forward_without_label_witness:
  "high_res_raster kw0 = Some \<lparr>dim0 = 1, dim1 = 1, elem = (\<lambda>b t. 5)\<rparr> \<and>
   trajectory_label kw0 = None \<and>
   (\<exists>E info. forward cfg0 fns0 kw0 = Inr (E, info) \<and> info_pred_length info = 80 \<and>
      length E = 1 \<and> (\<exists>pre. E ! 0 = pre @ replicate 80 0))"
proof -
  let ?high = "\<lparr>dim0 = 1, dim1 = 1, elem = (\<lambda>b t. 5)\<rparr> :: nat tensor2"
  let ?low = "\<lparr>dim0 = 1, dim1 = 1, elem = (\<lambda>b t. 6)\<rparr> :: nat tensor2"
  let ?ca = "\<lparr>dim0 = 1, dim1 = 1, elem = (\<lambda>b t. [1, 2, 0, 0])\<rparr> :: real list tensor2"
  have h: "high_res_raster kw0 = Some ?high" by (simp add: kw0_def)
  have n: "kw0\<lparr>trajectory_label := None\<rparr> = kw0" by (simp add: kw0_def)
  have "\<exists>E info. forward cfg0 fns0 kw0 = Inr (E, info)"
    by (rule forward_total[where high = ?high and low = ?low and ca = ?ca])
      (simp_all add: fixture_defs)
  then obtain E info where f: "forward cfg0 fns0 kw0 = Inr (E, info)" by blast
  then have f': "forward cfg0 fns0 (kw0\<lparr>trajectory_label := None\<rparr>) = Inr (E, info)"
    by (simp only: n)
  note t = forward_without_label[OF h, of cfg0 fns0 ?low ?ca]
  note p5 = t[THEN conjunct2, THEN conjunct2, THEN conjunct2, THEN conjunct2, THEN conjunct1]
  note c = p5[rule_format, OF f']
  from c have "info_pred_length info = 80" by (rule conjunct1)
  moreover from c have "length E = 1" by simp
  moreover from c have "\<exists>pre. E ! 0 = pre @ replicate 80 0" by simp
  moreover have "trajectory_label kw0 = None" by (simp add: kw0_def)
  ultimately show ?thesis using f h by (intro conjI exI[of _ E] exI[of _ info])
qed

section \<open>The proposal-cluster segment\<close>

lemma forward_stages:
  assumes "forward cfg fns kw = Inr (E, info)"
  shows "\<exists>high low ca label E1 c1 E2 c2 E3 info3 E4 info4.
      is_training kw = Some (training cfg) \<and>
      high_res_raster kw = Some high \<and> low_res_raster kw = Some low \<and>
      context_actions kw = Some ca \<and>
      label = (case trajectory_label kw of Some l \<Rightarrow> l | None \<Rightarrow> default_label (dim0 high)) \<and>
      interleave_stage cfg fns high low
        (map (map (action_m_embed fns))
           (trajectory_linear_augmentation fns (training cfg) (rows ca)
              (x_random_walk cfg) (y_random_walk cfg))) = Inr (E1, c1) \<and>
      camera_stage cfg fns (camera_images kw) (dim0 high) (E1, c1) = Inr (E2, c2) \<and>
      proposal_stage cfg fns label
        (E2, \<lparr>info_trajectory_label = label, info_pred_length = dim1 label,
               info_context_length = c2,
               info_candi_proposal_num = None, info_future_traj_diff = None,
               info_future_key_points = None, info_selected_indices = None\<rparr>) = Inr (E3, info3) \<and>
      key_point_stage cfg fns (training cfg) (E3, info3) = Inr (E4, info4) \<and>
      cat1 E4 (zeros (dim0 high) (dim1 label)) = Inr E \<and>
      info = info4\<lparr>info_selected_indices := selected_indices cfg\<rparr>"
proof -
  from assms obtain tr label ca high low where
    tr: "is_training kw = Some tr" "training cfg = tr"
    and lab: "(case trajectory_label kw of
          Some l \<Rightarrow> Inr l
        | None \<Rightarrow> and_then (require (high_res_raster kw) AttributeError)
                    (\<lambda>h. Inr (default_label (dim0 h)))) = Inr label"
    and ca: "context_actions kw = Some ca" and high: "high_res_raster kw = Some high"
    and low: "low_res_raster kw = Some low" and rc: "raster_c kw = raster_channels cfg"
    by (auto simp: forward_def and_then_eq_Inr)
  have label: "label = (case trajectory_label kw of Some l \<Rightarrow> l | None \<Rightarrow> default_label (dim0 high))"
    using lab high by (auto split: option.splits)
  from assms tr lab ca high low rc obtain E1 c1 E2 c2 E3 info3 E4 info4 where
    s1: "interleave_stage cfg fns high low
        (map (map (action_m_embed fns))
           (trajectory_linear_augmentation fns (training cfg) (rows ca)
              (x_random_walk cfg) (y_random_walk cfg))) = Inr (E1, c1)"
    and s2: "camera_stage cfg fns (camera_images kw) (dim0 high) (E1, c1) = Inr (E2, c2)"
    and s3: "proposal_stage cfg fns label
        (E2, \<lparr>info_trajectory_label = label, info_pred_length = dim1 label,
               info_context_length = c2,
               info_candi_proposal_num = None, info_future_traj_diff = None,
               info_future_key_points = None, info_selected_indices = None\<rparr>) = Inr (E3, info3)"
    and s4: "key_point_stage cfg fns (training cfg) (E3, info3) = Inr (E4, info4)"
    and s5: "cat1 E4 (zeros (dim0 high) (dim1 label)) = Inr E"
    and inf: "info = info4\<lparr>info_selected_indices := selected_indices cfg\<rparr>"
    by (auto simp: forward_def and_then_eq_Inr Let_def)
  have t: "is_training kw = Some (training cfg)" using tr by simp
  show ?thesis
    by (intro exI[of _ high] exI[of _ low] exI[of _ ca] exI[of _ label] exI[of _ E1]
        exI[of _ c1] exI[of _ E2] exI[of _ c2] exI[of _ E3] exI[of _ info3] exI[of _ E4]
        exI[of _ info4] conjI t high low ca label s1 s2 s3 s4 s5 inf)
qed


lemma key_point_stage_No:
  "use_key_points cfg = No \<Longrightarrow> key_point_stage cfg fns tr (E, info) = Inr (E', info') \<Longrightarrow> E' = E"
  by (simp add: key_point_stage_def)





lemmas eval_defs = forward_def interleave_stage_def camera_stage_def
     proposal_stage_def key_point_stage_def flat_interleave_def patch_interleave_def
     get_proposal_cluster_embedding_def future_traj_diff_row_def ade_def broadcast2_def
     point_distance_def mean_def xy_def torch_argmin_def traj_cls_point_def
     select_keypoints_def key_point_indices_def py_index_def ar_future_interval_def
     assign_slice_def rows_def zeros_def default_label_def
     expand_def slot_count_def assign_row_def is_slot_def cat1_def Let_def

lemma upt_small:
  "[0..<2] = [0, 1]" "[0..<3] = [0, 1, 2]" "[0..<4] = [0, 1, 2, 3]" "[0..<5] = [0, 1, 2, 3, 4]"
  by (simp_all add: upt_rec)



section \<open>The key-point slots of the generation loop\<close>

lemmas generate_defs = generate_def key_point_generation_def kp_start_index_def fill_step_def
  decode_key_point_def point_of_hidden_def backbone_prefix_def column_def select_candidate_def
  reshape_candidates_def gather_pairs_def torch_argmax_def materialize_def
  idm_override_def assign_column_def returned_point_def prepare_position_ids_for_generation_def
  interplate_yaw_def

lemma replicate_small:
  "replicate 2 x = [x, x]" "replicate 3 x = [x, x, x]" "replicate 4 x = [x, x, x, x]"
  by (simp_all add: eval_nat_numeral)



section \<open>Empty key-point sets\<close>

lemma isl_iff_not_Inr: "isl x \<longleftrightarrow> (\<forall>y. x \<noteq> Inr y)"
  by (cases x) simp_all

lemma key_point_stage_slots:
  assumes "key_point_stage cfg fns tr (E, info) = Inr (E', info')"
    and "use_key_points cfg \<noteq> No"
  shows "\<exists>idxs. key_point_indices (use_key_points cfg) (selected_indices cfg)
                  (dim1 (info_trajectory_label info)) = Inr idxs \<and> idxs \<noteq> []"
  using assms
  by (auto simp: key_point_stage_def select_keypoints_def Let_def and_then_eq_Inr
      split: if_splits)

lemma key_point_generation_slots:
  assumes "key_point_generation cfg m emb info E = Inr res"
    and "use_key_points cfg \<noteq> No"
  shows "info_selected_indices info \<noteq> None \<and> info_selected_indices info \<noteq> Some [] \<and>
         (\<exists>idxs. key_point_indices (use_key_points cfg) (info_selected_indices info)
                  (info_pred_length info) = Inr idxs \<and> idxs \<noteq> [])"
  using assms
  by (auto simp: key_point_generation_def Let_def and_then_eq_Inr split: if_splits)

lemma forward_label_length:
  fixes kw :: "('r, 'c) kwargs"
  assumes "forward cfg fns kw = Inr (E, info)"
  shows "info_pred_length info = (case trajectory_label kw of Some l \<Rightarrow> dim1 l | None \<Rightarrow> 80)"
    and "info_selected_indices info = selected_indices cfg"
proof -
  from forward_Inr[OF assms] obtain high :: "'r tensor2" and label where
    l: "label = (case trajectory_label kw of Some l \<Rightarrow> l | None \<Rightarrow> default_label (dim0 high))"
    and p: "info_pred_length info = dim1 label"
    and s: "info_selected_indices info = selected_indices cfg" by blast
  show "info_pred_length info = (case trajectory_label kw of Some l \<Rightarrow> dim1 l | None \<Rightarrow> 80)"
    using l p by (simp add: default_label_def split: option.splits)
  show "info_selected_indices info = selected_indices cfg" by (rule s)
qed

text \<open>
  C9. With key points enabled, a slot selection that yields no slot makes the call fail:
  \<^verbatim>\<open>generate\<close> returns an error when the selected indices are missing or empty or when no
  future key point is sampled from the prediction length, and the encoder's \<^verbatim>\<open>forward\<close>
  returns an error when no key point is sampled. Neither returns a result without key
  points.
\<close>

theorem empty_key_point_set_fails:
  fixes kw :: "('r, 'c) kwargs"
  assumes "use_key_points cfg \<noteq> No"
    and "n = (case trajectory_label kw of Some l \<Rightarrow> dim1 l | None \<Rightarrow> 80)"
  shows "(selected_indices cfg = None \<or> selected_indices cfg = Some [] \<or>
          key_point_indices (use_key_points cfg) (selected_indices cfg) n = Inr []
            \<longrightarrow> isl (generate cfg fns m kw))
       \<and> (key_point_indices (use_key_points cfg) (selected_indices cfg) n = Inr []
            \<longrightarrow> isl (forward cfg fns kw))"
proof (intro conjI impI)
  assume z: "selected_indices cfg = None \<or> selected_indices cfg = Some [] \<or>
          key_point_indices (use_key_points cfg) (selected_indices cfg) n = Inr []"
  show "isl (generate cfg fns m kw)"
  proof (rule ccontr)
    assume "\<not> isl (generate cfg fns m kw)"
    then obtain out where g: "generate cfg fns m kw = Inr out" by (auto simp: isl_iff_not_Inr)
    then obtain E info res where
      f: "forward cfg fns (kw\<lparr>is_training := Some False\<rparr>) = Inr (E, info)"
      and kg: "key_point_generation cfg m (action_m_embed fns) info E = Inr res"
      by (auto simp: generate_def and_then_eq_Inr)
    from forward_label_length[OF f] assms(2)
    have "info_pred_length info = n" "info_selected_indices info = selected_indices cfg"
      by simp_all
    with key_point_generation_slots[OF kg assms(1)] z show False by auto
  qed
next
  assume z: "key_point_indices (use_key_points cfg) (selected_indices cfg) n = Inr []"
  show "isl (forward cfg fns kw)"
  proof (rule ccontr)
    assume "\<not> isl (forward cfg fns kw)"
    then obtain E info where f: "forward cfg fns kw = Inr (E, info)"
      by (auto simp: isl_iff_not_Inr)
    from forward_stages[OF f] obtain high :: "'r tensor2" and label E2 c2 E3 info3 E4 info4 where
      l: "label = (case trajectory_label kw of Some l \<Rightarrow> l | None \<Rightarrow> default_label (dim0 high))"
      and s3: "proposal_stage cfg fns label
        (E2, \<lparr>info_trajectory_label = label, info_pred_length = dim1 label,
               info_context_length = c2,
               info_candi_proposal_num = None, info_future_traj_diff = None,
               info_future_key_points = None, info_selected_indices = None\<rparr>) = Inr (E3, info3)"
      and s4: "key_point_stage cfg fns (training cfg) (E3, info3) = Inr (E4, info4)"
      by blast
    have "info_trajectory_label info3 = label" using proposal_stage_Inr(4)[OF s3] by simp
    moreover have "dim1 label = n" using l assms(2) by (simp add: default_label_def split: option.splits)
    ultimately show False using key_point_stage_slots[OF s4 assms(1)] z by auto
  qed
qed

theorem empty_key_point_set_fails_witness:
  "use_key_points (cfg0\<lparr>use_key_points := Specified, selected_indices := Some []\<rparr>) \<noteq> No \<and>
   selected_indices (cfg0\<lparr>use_key_points := Specified, selected_indices := Some []\<rparr>) = Some [] \<and>
   key_point_indices Specified (Some []) 80 = Inr [] \<and>
   isl (generate (cfg0\<lparr>use_key_points := Specified, selected_indices := Some []\<rparr>) fns0 m0 kw0) \<and>
   isl (forward (cfg0\<lparr>use_key_points := Specified, selected_indices := Some []\<rparr>) fns0 kw0) \<and>
   is_training kw_gen = None \<and>
   key_point_indices Specified (Some []) 3 = Inr [] \<and>
   isl (generate (cfg0\<lparr>use_key_points := Specified, selected_indices := Some []\<rparr>) fns0 m0 kw_gen) \<and>
   generate (cfg0\<lparr>use_key_points := Specified, selected_indices := Some []\<rparr>) fns0 m0 kw_gen
     = Inl (AssertionError ''future points not enough to sample'')"
proof -
  let ?cfg = "cfg0\<lparr>use_key_points := Specified, selected_indices := Some []\<rparr>"
  have a: "use_key_points ?cfg \<noteq> No" by simp
  have b: "(80::nat) = (case trajectory_label kw0 of Some l \<Rightarrow> dim1 l | None \<Rightarrow> 80)"
    by (simp add: kw0_def)
  have b': "(3::nat) = (case trajectory_label kw_gen of Some l \<Rightarrow> dim1 l | None \<Rightarrow> 80)"
    by (simp add: fixture_defs)
  have c: "key_point_indices (use_key_points ?cfg) (selected_indices ?cfg) 80 = Inr []"
    by (simp add: key_point_indices_def)
  have c': "key_point_indices (use_key_points ?cfg) (selected_indices ?cfg) 3 = Inr []"
    by (simp add: key_point_indices_def)
  note t = empty_key_point_set_fails[OF a b, of fns0 m0]
  note t' = empty_key_point_set_fails[OF a b', of fns0 m0]
  from t c have "isl (generate ?cfg fns0 m0 kw0)" "isl (forward ?cfg fns0 kw0)" by blast+
  moreover from t' c' have "isl (generate ?cfg fns0 m0 kw_gen)" by blast
  moreover have "key_point_indices Specified (Some []) 80 = Inr []"
    "key_point_indices Specified (Some []) 3 = Inr []"
    by (simp_all add: key_point_indices_def)
  moreover have "is_training kw_gen = None" by (simp add: fixture_defs)
  moreover have "generate ?cfg fns0 m0 kw_gen
     = Inl (AssertionError ''future points not enough to sample'')"
    by (simp add: generate_defs eval_defs fixture_defs upt_small replicate_small)
  ultimately show ?thesis by simp
qed

section \<open>The key-point fill loop\<close>

lemma assign_column_Inr:
  assumes "assign_column i vals X = Inr X'" and "length vals = length X"
  shows "length X' = length X"
    and "\<And>b. b < length X \<Longrightarrow> i < length (X ! b) \<and> X' ! b = (X ! b)[i := vals ! b]"
proof -
  from assms have c: "collect (map (\<lambda>(v, row). if i < length row then Inr (row[i := v]) else Inl IndexError)
         (zip vals X)) = Inr X'"
    by (simp add: assign_column_def)
  show "length X' = length X" using collect_nth(1)[OF c] assms(2) by simp
  fix b assume b: "b < length X"
  have "(\<lambda>(v, row). if i < length row then Inr (row[i := v]) else Inl IndexError) (zip vals X ! b)
          = Inr (X' ! b)"
    using collect_nth(2)[OF c, of b] b assms(2) by simp
  then show "i < length (X ! b) \<and> X' ! b = (X ! b)[i := vals ! b]"
    using b assms(2) by (auto split: if_splits)
qed

lemma materialize_length: "materialize yaw B logit = Inr ps \<Longrightarrow> length ps = B"
proof -
  assume "materialize yaw B logit = Inr ps"
  then obtain qs where q: "expand B logit = Inr qs"
    and c: "collect (map (\<lambda>p. if yaw then expand 4 p
                          else and_then (expand 2 p) (\<lambda>q. Inr (q @ [0, 0]))) qs) = Inr ps"
    by (auto simp: materialize_def and_then_eq_Inr)
  show ?thesis using collect_nth(1)[OF c] expand_length[OF q] by simp
qed

lemma idm_override_length: "idm_override cfg m sel i pts = Inr pts' \<Longrightarrow> length pts' = length pts"
  by (cases pts)
    (auto simp: idm_override_def and_then_eq_Inr split: option.splits if_splits)

lemma point_of_hidden_length:
  assumes "point_of_hidden cfg m B sel i h = Inr pt"
  shows "length pt = B"
proof -
  from assms obtain logit p0 where
    "materialize (predict_yaw cfg) B logit = Inr p0" "idm_override cfg m sel i p0 = Inr pt"
    by (auto simp: point_of_hidden_def and_then_eq_Inr)
  then show ?thesis using materialize_length idm_override_length by metis
qed

lemma backbone_prefix_cong:
  "map (take (kp + i)) E = map (take (kp + i)) E' \<Longrightarrow> backbone_prefix m kp i E = backbone_prefix m kp i E'"
  by (simp add: backbone_prefix_def)

lemma fill_step_Inr:
  assumes "fill_step cfg m emb B kp sel i E = Inr (E', p)" and "length E = B"
  shows "\<exists>h pt. column (backbone_prefix m kp i E) (int (kp + i) - 1) = Inr h \<and>
           point_of_hidden cfg m B sel i h = Inr pt \<and> length pt = B \<and>
           p = returned_point cfg pt \<and> length E' = B \<and>
           (\<forall>b < B. kp + i < length (E ! b) \<and> E' ! b = (E ! b)[kp + i := emb (pt ! b)])"
proof -
  from assms(1) obtain h pt where
    h: "column (backbone_prefix m kp i E) (int (kp + i) - 1) = Inr h"
    and pt: "point_of_hidden cfg m B sel i h = Inr pt"
    and a: "assign_column (kp + i) (map emb pt) E = Inr E'"
    and p: "p = returned_point cfg pt"
    by (auto simp: fill_step_def decode_key_point_def and_then_eq_Inr)
  have l: "length pt = B" by (rule point_of_hidden_length[OF pt])
  then have lv: "length (map emb pt) = length E" using assms(2) by simp
  note ac = assign_column_Inr[OF a lv]
  have "\<forall>b < B. kp + i < length (E ! b) \<and> E' ! b = (E ! b)[kp + i := emb (pt ! b)]"
    using ac(2) assms(2) l by simp
  then show ?thesis using h pt l p ac(1) assms(2)
    by (intro exI[of _ h] exI[of _ pt]) simp
qed

lemma rows_take_eq:
  assumes "length E = length E'"
    and "\<And>b. b < length E \<Longrightarrow> length (E ! b) = length (E' ! b)"
    and "\<And>b j. b < length E \<Longrightarrow> j < n \<Longrightarrow> j < length (E ! b) \<Longrightarrow> E ! b ! j = E' ! b ! j"
  shows "map (take n) E = map (take n) E'"
proof (rule nth_equalityI)
  show "length (map (take n) E) = length (map (take n) E')" using assms(1) by simp
  fix b assume "b < length (map (take n) E)"
  then have b: "b < length E" by simp
  have "take n (E ! b) = take n (E' ! b)"
    by (rule nth_equalityI) (use assms(2,3)[OF b] in auto)
  then show "map (take n) E ! b = map (take n) E' ! b" using b assms(1) by simp
qed

lemma fill_loop_append:
  "fill_loop cfg m emb B kp sel (xs @ ys) st =
     and_then (fill_loop cfg m emb B kp sel xs st) (fill_loop cfg m emb B kp sel ys)"
proof (induction xs arbitrary: st)
  case Nil
  show ?case by simp
next
  case (Cons x xs)
  show ?case
  proof (cases "fill_step cfg m emb B kp sel x (fst st)")
    case (Inl e)
    then show ?thesis by simp
  next
    case (Inr r)
    then show ?thesis using Cons.IH by (cases r) simp
  qed
qed

lemma fill_loop_gen:
  assumes "fill_loop cfg m emb B kp sel [a..<K] (Ea, ps) = Inr (E, preds)"
    and "length Ea = B" and "a \<le> K"
  shows "\<exists>qs. preds = ps @ qs \<and> length qs = K - a \<and> length E = B \<and>
     (\<forall>b < B. length (E ! b) = length (Ea ! b) \<and>
        (\<forall>j < length (Ea ! b). j < kp + a \<or> kp + K \<le> j \<longrightarrow> E ! b ! j = Ea ! b ! j)) \<and>
     (\<forall>i. a \<le> i \<and> i < K \<longrightarrow>
        (\<exists>h pt. column (backbone_prefix m kp i E) (int (kp + i) - 1) = Inr h \<and>
           point_of_hidden cfg m B sel i h = Inr pt \<and> length pt = B \<and>
           (\<forall>b < B. kp + i < length (E ! b) \<and> E ! b ! (kp + i) = emb (pt ! b)) \<and>
           qs ! (i - a) = returned_point cfg pt))"
  using assms
proof (induction "K - a" arbitrary: a Ea ps)
  case 0
  then have aK: "a = K" using "0.prems"(3) by simp
  then have "E = Ea" "preds = ps" using "0.prems"(1) by simp_all
  then show ?case using aK "0.prems"(2) by (intro exI[of _ "[]"]) auto
next
  case (Suc n)
  then have aK: "a < K" by simp
  then have upt: "[a..<K] = a # [Suc a..<K]" by (simp add: upt_rec)
  from Suc.prems(1) upt obtain E1 p where
    st: "fill_step cfg m emb B kp sel a Ea = Inr (E1, p)"
    and rest: "fill_loop cfg m emb B kp sel [Suc a..<K] (E1, ps @ [p]) = Inr (E, preds)"
    by (auto simp: and_then_eq_Inr)
  from fill_step_Inr[OF st Suc.prems(2)] obtain h pt where
    h: "column (backbone_prefix m kp a Ea) (int (kp + a) - 1) = Inr h"
    and pt: "point_of_hidden cfg m B sel a h = Inr pt" and lpt: "length pt = B"
    and p: "p = returned_point cfg pt" and l1: "length E1 = B"
    and w: "\<forall>b < B. kp + a < length (Ea ! b) \<and> E1 ! b = (Ea ! b)[kp + a := emb (pt ! b)]"
    by blast
  have n: "n = K - Suc a" using Suc.hyps(2) by simp
  from Suc.hyps(1)[OF n rest l1] aK obtain qs where
    q: "preds = (ps @ [p]) @ qs" "length qs = K - Suc a" "length E = B"
    and un: "\<forall>b < B. length (E ! b) = length (E1 ! b) \<and>
        (\<forall>j < length (E1 ! b). j < kp + Suc a \<or> kp + K \<le> j \<longrightarrow> E ! b ! j = E1 ! b ! j)"
    and later: "\<forall>i. Suc a \<le> i \<and> i < K \<longrightarrow>
        (\<exists>h pt. column (backbone_prefix m kp i E) (int (kp + i) - 1) = Inr h \<and>
           point_of_hidden cfg m B sel i h = Inr pt \<and> length pt = B \<and>
           (\<forall>b < B. kp + i < length (E ! b) \<and> E ! b ! (kp + i) = emb (pt ! b)) \<and>
           qs ! (i - Suc a) = returned_point cfg pt)"
    by auto
  have len: "\<And>b. b < B \<Longrightarrow> length (E ! b) = length (Ea ! b)"
    using un w by simp
  have keep: "\<And>b j. b < B \<Longrightarrow> j < length (Ea ! b) \<Longrightarrow> j < kp + a \<or> kp + K \<le> j \<Longrightarrow>
      E ! b ! j = Ea ! b ! j"
  proof -
    fix b j assume b: "b < B" and j: "j < length (Ea ! b)" and r: "j < kp + a \<or> kp + K \<le> j"
    have "E ! b ! j = E1 ! b ! j" using un b j w r by auto
    also have "\<dots> = Ea ! b ! j" using w b j r aK by auto
    finally show "E ! b ! j = Ea ! b ! j" .
  qed
  have pre: "map (take (kp + a)) E = map (take (kp + a)) Ea"
    by (rule rows_take_eq) (use q(3) Suc.prems(2) len keep in auto)
  have here: "\<forall>b < B. kp + a < length (E ! b) \<and> E ! b ! (kp + a) = emb (pt ! b)"
  proof (intro allI impI)
    fix b assume b: "b < B"
    have "E ! b ! (kp + a) = E1 ! b ! (kp + a)" using un b w by auto
    then show "kp + a < length (E ! b) \<and> E ! b ! (kp + a) = emb (pt ! b)"
      using w b len by auto
  qed
  have stepa: "\<exists>h pt. column (backbone_prefix m kp a E) (int (kp + a) - 1) = Inr h \<and>
           point_of_hidden cfg m B sel a h = Inr pt \<and> length pt = B \<and>
           (\<forall>b < B. kp + a < length (E ! b) \<and> E ! b ! (kp + a) = emb (pt ! b)) \<and>
           (p # qs) ! (a - a) = returned_point cfg pt"
    using h pt lpt here p backbone_prefix_cong[OF pre, of m]
    by (intro exI[of _ h] exI[of _ pt]) simp
  have steps: "\<forall>i. a \<le> i \<and> i < K \<longrightarrow>
        (\<exists>h pt. column (backbone_prefix m kp i E) (int (kp + i) - 1) = Inr h \<and>
           point_of_hidden cfg m B sel i h = Inr pt \<and> length pt = B \<and>
           (\<forall>b < B. kp + i < length (E ! b) \<and> E ! b ! (kp + i) = emb (pt ! b)) \<and>
           (p # qs) ! (i - a) = returned_point cfg pt)"
  proof (intro allI impI)
    fix i assume i: "a \<le> i \<and> i < K"
    show "\<exists>h pt. column (backbone_prefix m kp i E) (int (kp + i) - 1) = Inr h \<and>
           point_of_hidden cfg m B sel i h = Inr pt \<and> length pt = B \<and>
           (\<forall>b < B. kp + i < length (E ! b) \<and> E ! b ! (kp + i) = emb (pt ! b)) \<and>
           (p # qs) ! (i - a) = returned_point cfg pt"
    proof (cases "i = a")
      case True
      then show ?thesis using stepa by simp
    next
      case False
      then have s: "Suc a \<le> i \<and> i < K" using i by simp
      have "(p # qs) ! (i - a) = qs ! (i - Suc a)" using s by (simp add: Suc_diff_le)
      then show ?thesis using later[rule_format, OF s] by simp
    qed
  qed
  have "preds = ps @ (p # qs)" using q(1) by simp
  moreover have "length (p # qs) = K - a" using q(2) aK by simp
  moreover have "\<forall>b < B. length (E ! b) = length (Ea ! b) \<and>
        (\<forall>j < length (Ea ! b). j < kp + a \<or> kp + K \<le> j \<longrightarrow> E ! b ! j = Ea ! b ! j)"
    using len keep by simp
  ultimately show ?case using q(3) steps by (intro exI[of _ "p # qs"]) simp
qed

text \<open>
  C1. When the loop over the \<open>K\<close> key-point slots returns, then for every step \<open>i < K\<close>: the
  backbone was run on exactly the prefix \<^verbatim>\<open>input_embeds[:, :kp_start_index + i, :]\<close> of the
  sequence as it was after the steps before \<open>i\<close> (with the all-ones mask and its position
  ids); the point of the step was decoded from the hidden state at index
  \<^verbatim>\<open>kp_start_index + i - 1\<close> of that run; the embedding of the point stands at index
  \<^verbatim>\<open>kp_start_index + i\<close> of every row of the final sequence, in place of the placeholder;
  and the \<open>i\<close>-th returned point is the point of step \<open>i\<close>. The returned list has \<open>K\<close>
  points, and outside the \<open>K\<close> slots the sequence is unchanged.
\<close>

theorem key_point_fill_loop:
  assumes "fill_loop cfg m emb B kp sel [0..<K] (E0, []) = Inr (E, preds)"
    and "length E0 = B"
  shows "length preds = K \<and> length E = B \<and>
    (\<forall>i < K. \<exists>Ei ps h pt.
        fill_loop cfg m emb B kp sel [0..<i] (E0, []) = Inr (Ei, ps) \<and>
        backbone_prefix m kp i Ei =
          transformer m (map (take (kp + i)) Ei)
            (Some (map (\<lambda>r. replicate (length r) 1) (map (take (kp + i)) Ei)))
            (Some (map prepare_position_ids_for_generation
                     (map (\<lambda>r. replicate (length r) 1) (map (take (kp + i)) Ei)))) \<and>
        column (backbone_prefix m kp i Ei) (int (kp + i) - 1) = Inr h \<and>
        point_of_hidden cfg m B sel i h = Inr pt \<and> length pt = B \<and>
        (\<forall>b < B. kp + i < length (E ! b) \<and> E ! b ! (kp + i) = emb (pt ! b)) \<and>
        preds ! i = returned_point cfg pt) \<and>
    (\<forall>b < B. length (E ! b) = length (E0 ! b) \<and>
       (\<forall>j < length (E0 ! b). j < kp \<or> kp + K \<le> j \<longrightarrow> E ! b ! j = E0 ! b ! j))"
proof -
  from fill_loop_gen[OF assms(1,2)] obtain qs where
    q: "preds = [] @ qs" "length qs = K - 0" "length E = B"
    and un: "\<forall>b < B. length (E ! b) = length (E0 ! b) \<and>
        (\<forall>j < length (E0 ! b). j < kp + 0 \<or> kp + K \<le> j \<longrightarrow> E ! b ! j = E0 ! b ! j)"
    by auto
  have steps: "\<forall>i < K. \<exists>Ei ps h pt.
        fill_loop cfg m emb B kp sel [0..<i] (E0, []) = Inr (Ei, ps) \<and>
        backbone_prefix m kp i Ei =
          transformer m (map (take (kp + i)) Ei)
            (Some (map (\<lambda>r. replicate (length r) 1) (map (take (kp + i)) Ei)))
            (Some (map prepare_position_ids_for_generation
                     (map (\<lambda>r. replicate (length r) 1) (map (take (kp + i)) Ei)))) \<and>
        column (backbone_prefix m kp i Ei) (int (kp + i) - 1) = Inr h \<and>
        point_of_hidden cfg m B sel i h = Inr pt \<and> length pt = B \<and>
        (\<forall>b < B. kp + i < length (E ! b) \<and> E ! b ! (kp + i) = emb (pt ! b)) \<and>
        preds ! i = returned_point cfg pt"
  proof (intro allI impI)
    fix i assume i: "i < K"
    then have split: "[0..<K] = [0..<i] @ [i..<K]"
      by (metis le_add_diff_inverse less_imp_le_nat upt_add_eq_append zero_le)
    from assms(1) obtain Ei ps where
      first: "fill_loop cfg m emb B kp sel [0..<i] (E0, []) = Inr (Ei, ps)"
      and second: "fill_loop cfg m emb B kp sel [i..<K] (Ei, ps) = Inr (E, preds)"
      unfolding split fill_loop_append by (auto simp: and_then_eq_Inr)
    from fill_loop_gen[OF first assms(2)]
    have li: "length Ei = B" and lps: "length ps = i" by auto
    from fill_loop_gen[OF second li] i obtain rs where
      r: "preds = ps @ rs"
      and uni: "\<forall>b < B. length (E ! b) = length (Ei ! b) \<and>
        (\<forall>j < length (Ei ! b). j < kp + i \<or> kp + K \<le> j \<longrightarrow> E ! b ! j = Ei ! b ! j)"
      and st: "\<forall>i'. i \<le> i' \<and> i' < K \<longrightarrow>
        (\<exists>h pt. column (backbone_prefix m kp i' E) (int (kp + i') - 1) = Inr h \<and>
           point_of_hidden cfg m B sel i' h = Inr pt \<and> length pt = B \<and>
           (\<forall>b < B. kp + i' < length (E ! b) \<and> E ! b ! (kp + i') = emb (pt ! b)) \<and>
           rs ! (i' - i) = returned_point cfg pt)"
      by auto
    from st i obtain h pt where
      h: "column (backbone_prefix m kp i E) (int (kp + i) - 1) = Inr h"
      and pt: "point_of_hidden cfg m B sel i h = Inr pt" "length pt = B"
      and w: "\<forall>b < B. kp + i < length (E ! b) \<and> E ! b ! (kp + i) = emb (pt ! b)"
      and ri: "rs ! (i - i) = returned_point cfg pt"
      by blast
    have pre: "map (take (kp + i)) E = map (take (kp + i)) Ei"
      by (rule rows_take_eq) (use q(3) li uni in auto)
    have bp: "backbone_prefix m kp i E = backbone_prefix m kp i Ei"
      by (rule backbone_prefix_cong[OF pre])
    have pi: "preds ! i = returned_point cfg pt" using r lps ri by (simp add: nth_append)
    have ex: "backbone_prefix m kp i Ei =
          transformer m (map (take (kp + i)) Ei)
            (Some (map (\<lambda>r. replicate (length r) 1) (map (take (kp + i)) Ei)))
            (Some (map prepare_position_ids_for_generation
                     (map (\<lambda>r. replicate (length r) 1) (map (take (kp + i)) Ei))))"
      unfolding backbone_prefix_def Let_def by (rule refl)
    show "\<exists>Ei ps h pt.
        fill_loop cfg m emb B kp sel [0..<i] (E0, []) = Inr (Ei, ps) \<and>
        backbone_prefix m kp i Ei =
          transformer m (map (take (kp + i)) Ei)
            (Some (map (\<lambda>r. replicate (length r) 1) (map (take (kp + i)) Ei)))
            (Some (map prepare_position_ids_for_generation
                     (map (\<lambda>r. replicate (length r) 1) (map (take (kp + i)) Ei)))) \<and>
        column (backbone_prefix m kp i Ei) (int (kp + i) - 1) = Inr h \<and>
        point_of_hidden cfg m B sel i h = Inr pt \<and> length pt = B \<and>
        (\<forall>b < B. kp + i < length (E ! b) \<and> E ! b ! (kp + i) = emb (pt ! b)) \<and>
        preds ! i = returned_point cfg pt"
      using first ex h[unfolded bp] pt w pi
      by (intro exI[of _ Ei] exI[of _ ps] exI[of _ h] exI[of _ pt] conjI)
  qed
  show ?thesis using q un steps by simp
qed

lemma fill_loop_eval:
  "fill_loop cfg_kp m0 (action_m_embed fns0) 1 2 (Some [0, 1]) [0..<2] ([[607, 4, 1, 1, 0]], [])
     = Inr ([[607, 4, 10, 22, 0]], [[[4, 5]], [[10, 11]]])"
  by (simp add: generate_defs eval_defs fixture_defs upt_small replicate_small)

theorem key_point_fill_loop_witness:
  "fill_loop cfg_kp m0 (action_m_embed fns0) 1 2 (Some [0, 1]) [0..<2] ([[607, 4, 1, 1, 0]], [])
     = Inr ([[607, 4, 10, 22, 0]], [[[4, 5]], [[10, 11]]])
   \<and> length [[607, 4, 1, 1, 0 :: real]] = 1
   \<and> (\<exists>pt. [[607, 4, 10, 22, 0]] ! 0 ! (2 + 1) = action_m_embed fns0 (pt ! 0) \<and>
             [[[4, 5]], [[10, 11]]] ! 1 = returned_point cfg_kp pt)"
proof -
  have len: "length [[607, 4, 1, 1, 0 :: real]] = 1" by simp
  note t = key_point_fill_loop[OF fill_loop_eval len]
  note s = t[THEN conjunct2, THEN conjunct2, THEN conjunct1, rule_format]
  have "1 < (2::nat)" by simp
  from s[OF this] obtain pt where
    w: "\<forall>b < 1. 2 + 1 < length ([[607, 4, 10, 22, 0 :: real]] ! b) \<and>
          [[607, 4, 10, 22, 0]] ! b ! (2 + 1) = action_m_embed fns0 (pt ! b)"
    and p: "[[[4, 5]], [[10, 11]]] ! 1 = returned_point cfg_kp pt"
    by blast
  from w have "[[607, 4, 10, 22, 0]] ! 0 ! (2 + 1) = action_m_embed fns0 (pt ! 0)" by simp
  with p have "\<exists>pt. [[607, 4, 10, 22, 0]] ! 0 ! (2 + 1) = action_m_embed fns0 (pt ! 0) \<and>
             [[[4, 5]], [[10, 11]]] ! 1 = returned_point cfg_kp pt" by blast
  then show ?thesis using fill_loop_eval len by (intro conjI)
qed

section \<open>Candidate selection in the fill loop\<close>















section \<open>The range of the key-point slots\<close>








section \<open>The proposal-cluster segment in the assembled sequence\<close>







end
